theory Spec2Isabelle
  imports Complex_Main "HOL-Library.Log_Nat"
begin

section \<open>que: filtering, metric conversion and rendering of scheduler job records\<close>

text \<open>
  A shallow embedding of \<^verbatim>\<open>src/que.py\<close>. Python values are modelled by the datatype
  \<open>jval\<close> (what \<^verbatim>\<open>json.loads\<close> with \<^verbatim>\<open>object_pairs_hook=OrderedDict\<close> yields for
  strings, integers, \<^verbatim>\<open>null\<close> and objects), exceptions by the datatype \<open>pyerr\<close>, and
  every function that can raise returns \<open>pyerr + 'a\<close> with \<open>Inl\<close> for the exception.

  Scope of the model. Strings are lists of \<open>char\<close>, each standing for one code point in
  the ASCII range; the case mappings, the white-space classes and \<^verbatim>\<open>repr\<close> are those
  of Python on ASCII. JSON arrays, booleans and non-integer numbers inside a job
  record are not modelled. Python's \<^verbatim>\<open>float\<close> is modelled as an IEEE binary64
  value: a sign with an exactly representable rational magnitude, an infinity, or NaN,
  every operation rounding the exact result to nearest, ties to even.
\<close>

subsection \<open>Exceptions\<close>

datatype jval = JStr string | JInt int | JNull | JObj "(string \<times> jval) list"

text \<open>
  \<open>SystemExit job\<close> stands for \<^verbatim>\<open>print(job); sys.exit(1)\<close>: the record shown to the
  operator is kept in the value. All other constructors are exceptions that nothing
  in the program handles once they leave the function that raised them.
\<close>

datatype pyerr =
    KeyError jval
  | TypeError
  | ValueError
  | IndexError
  | AttributeError
  | ZeroDivisionError
  | OverflowError
  | NameError
  | SystemExit jval

definition bnd :: "pyerr + 'a \<Rightarrow> ('a \<Rightarrow> pyerr + 'b) \<Rightarrow> pyerr + 'b" where
  "bnd m f = (case m of Inl e \<Rightarrow> Inl e | Inr x \<Rightarrow> f x)"

definition of_opt :: "pyerr \<Rightarrow> 'a option \<Rightarrow> pyerr + 'a" where
  "of_opt e m = (case m of None \<Rightarrow> Inl e | Some x \<Rightarrow> Inr x)"

text \<open>\<^verbatim>\<open>try: ... except KeyError: ...\<close>\<close>

definition except_KeyError :: "pyerr + 'a \<Rightarrow> (pyerr + 'a) \<Rightarrow> pyerr + 'a" where
  "except_KeyError m h = (case m of Inl (KeyError k) \<Rightarrow> h | _ \<Rightarrow> m)"

subsection \<open>Python strings\<close>

text \<open>\<^verbatim>\<open>str.isspace\<close> on ASCII (used by \<^verbatim>\<open>rstrip\<close>): TAB..CR, FS..US and the blank.\<close>

definition is_space :: "char \<Rightarrow> bool" where
  "is_space c = (let n = of_char c :: nat in (9 \<le> n \<and> n \<le> 13) \<or> (28 \<le> n \<and> n \<le> 32))"

text \<open>The white space that \<^verbatim>\<open>int()\<close> and \<^verbatim>\<open>float()\<close> skip: TAB..CR and the blank.\<close>

definition is_cspace :: "char \<Rightarrow> bool" where
  "is_cspace c = (let n = of_char c :: nat in (9 \<le> n \<and> n \<le> 13) \<or> n = 32)"

definition rstrip :: "string \<Rightarrow> string" where
  "rstrip s = rev (dropWhile is_space (rev s))"

definition cstrip :: "string \<Rightarrow> string" where
  "cstrip s = rev (dropWhile is_cspace (rev (dropWhile is_cspace s)))"

definition upper_char :: "char \<Rightarrow> char" where
  "upper_char c = (let n = of_char c :: nat in if 97 \<le> n \<and> n \<le> 122 then char_of (n - 32) else c)"

definition lower_char :: "char \<Rightarrow> char" where
  "lower_char c = (let n = of_char c :: nat in if 65 \<le> n \<and> n \<le> 90 then char_of (n + 32) else c)"

definition upper :: "string \<Rightarrow> string" where
  "upper s = map upper_char s"

definition lower :: "string \<Rightarrow> string" where
  "lower s = map lower_char s"

text \<open>\<^verbatim>\<open>a.startswith(p)\<close> and \<^verbatim>\<open>p in a\<close> for two strings.\<close>

fun startswith :: "string \<Rightarrow> string \<Rightarrow> bool" where
  "startswith s [] = True"
| "startswith [] (p # ps) = False"
| "startswith (c # cs) (p # ps) = (c = p \<and> startswith cs ps)"

fun str_in :: "string \<Rightarrow> string \<Rightarrow> bool" where
  "str_in p [] = (p = [])"
| "str_in p (c # cs) = (startswith (c # cs) p \<or> str_in p cs)"

text \<open>
  \<^verbatim>\<open>s.replace(old, "")\<close> for a non-empty \<open>old\<close>: the occurrences are found from the
  left and do not overlap.
\<close>

fun remove_all :: "string \<Rightarrow> string \<Rightarrow> string" where
  "remove_all old [] = []"
| "remove_all old (c # cs) =
     (if old \<noteq> [] \<and> startswith (c # cs) old
      then remove_all old (drop (length old) (c # cs))
      else c # remove_all old cs)"

text \<open>\<^verbatim>\<open>s.split(sep)\<close> for a one-character separator: never the empty list.\<close>

fun split :: "char \<Rightarrow> string \<Rightarrow> string list" where
  "split sep [] = [[]]"
| "split sep (c # cs) =
     (if c = sep then [] # split sep cs
      else (case split sep cs of [] \<Rightarrow> [[c]] | w # ws \<Rightarrow> (c # w) # ws))"

text \<open>\<^verbatim>\<open>sep.join(parts)\<close>\<close>

fun join :: "string \<Rightarrow> string list \<Rightarrow> string" where
  "join sep [] = []"
| "join sep [w] = w"
| "join sep (w # ws) = w @ sep @ join sep ws"

text \<open>
  Slices \<^verbatim>\<open>s[i:]\<close> and \<^verbatim>\<open>s[0:i]\<close>: a negative bound counts from the end, and every
  bound is clipped to the string.
\<close>

definition slice_bound :: "nat \<Rightarrow> int \<Rightarrow> nat" where
  "slice_bound n i = (if i < 0 then nat (max 0 (int n + i)) else min (nat i) n)"

definition slice_from :: "'a list \<Rightarrow> int \<Rightarrow> 'a list" where
  "slice_from s i = drop (slice_bound (length s) i) s"

definition slice_upto :: "'a list \<Rightarrow> int \<Rightarrow> 'a list" where
  "slice_upto s i = take (slice_bound (length s) i) s"

text \<open>\<^verbatim>\<open>str(n)\<close> for an integer.\<close>

definition digit_char :: "int \<Rightarrow> char" where
  "digit_char d = char_of (48 + d)"

function str_pos :: "int \<Rightarrow> string" where
  "str_pos n = (if n < 10 then [digit_char n] else str_pos (n div 10) @ [digit_char (n mod 10)])"
  by pat_completeness auto
termination
  by (relation "measure nat") auto

definition str_int :: "int \<Rightarrow> string" where
  "str_int i = (if i < 0 then CHR ''-'' # str_pos (- i) else str_pos i)"

text \<open>
  The format specifications \<^verbatim>\<open>{x:^w}\<close> (centred: the left padding is the smaller
  half) and the right alignment that a number gets by default.
\<close>

definition center :: "nat \<Rightarrow> string \<Rightarrow> string" where
  "center w s =
     (let pad = w - length s; l = pad div 2
      in replicate l CHR '' '' @ s @ replicate (pad - l) CHR '' '')"

definition rjust :: "nat \<Rightarrow> string \<Rightarrow> string" where
  "rjust w s = replicate (w - length s) CHR '' '' @ s"

text \<open>
  \<^verbatim>\<open>repr\<close> of a string: double quotes when the string has a single quote and no
  double quote, single quotes otherwise; backslash, the quote in use, TAB, LF and CR
  are escaped, other control characters are written \<^verbatim>\<open>\xhh\<close>.
\<close>

definition hex_digit :: "nat \<Rightarrow> char" where
  "hex_digit d = (if d < 10 then char_of (48 + d) else char_of (87 + d))"

definition repr_char :: "char \<Rightarrow> char \<Rightarrow> string" where
  "repr_char q c =
     (let n = of_char c :: nat in
      if c = CHR 0x5C then [CHR 0x5C, CHR 0x5C]
      else if c = q then [CHR 0x5C, q]
      else if n = 9 then [CHR 0x5C, CHR ''t'']
      else if n = 10 then [CHR 0x5C, CHR ''n'']
      else if n = 13 then [CHR 0x5C, CHR ''r'']
      else if n < 32 \<or> n = 127 then [CHR 0x5C, CHR ''x'', hex_digit (n div 16), hex_digit (n mod 16)]
      else [c])"

definition repr_str :: "string \<Rightarrow> string" where
  "repr_str s =
     (let q = (if CHR 0x27 \<in> set s \<and> CHR 0x22 \<notin> set s then CHR 0x22 else CHR 0x27)
      in [q] @ concat (map (repr_char q) s) @ [q])"

subsection \<open>Parsing integers\<close>

definition is_digit :: "char \<Rightarrow> bool" where
  "is_digit c = (let n = of_char c :: nat in 48 \<le> n \<and> n \<le> 57)"

definition digit_val :: "char \<Rightarrow> int" where
  "digit_val c = of_char c - 48"

text \<open>
  A digit part is \<^verbatim>\<open>digit (["_"] digit)*\<close>. \<open>digitpart acc seen s\<close> reads the digits of
  \<open>s\<close> into the accumulator; \<open>seen\<close> says that the previous character was a digit, so
  that an underscore is allowed here. The result keeps the number of digits read
  besides their value.
\<close>

fun digitpart :: "int \<times> nat \<Rightarrow> bool \<Rightarrow> string \<Rightarrow> (int \<times> nat) option" where
  "digitpart acc seen [] = (if seen then Some acc else None)"
| "digitpart (v, k) seen (c # cs) =
     (if is_digit c then digitpart (10 * v + digit_val c, Suc k) True cs
      else if c = CHR ''_'' \<and> seen then digitpart (v, k) False cs
      else None)"

definition digits :: "string \<Rightarrow> (int \<times> nat) option" where
  "digits s = digitpart (0, 0) False s"

text \<open>An optional sign: \<open>True\<close> for minus.\<close>

fun sign :: "string \<Rightarrow> bool \<times> string" where
  "sign [] = (False, [])"
| "sign (c # cs) =
     (if c = CHR ''-'' then (True, cs) else if c = CHR ''+'' then (False, cs) else (False, c # cs))"

text \<open>\<^verbatim>\<open>int(s)\<close> for a string: \<open>None\<close> is the \<^verbatim>\<open>ValueError\<close>.\<close>

definition parse_int :: "string \<Rightarrow> int option" where
  "parse_int s =
     (case sign (cstrip s) of (neg, r) \<Rightarrow>
        (case digits r of None \<Rightarrow> None
         | Some (v, k) \<Rightarrow> Some (if neg then - v else v)))"

subsection \<open>Python floats\<close>

text \<open>
  \<open>Fin neg m\<close> is the finite double with sign \<open>neg\<close> (\<open>True\<close> for minus, so that
  \<open>Fin True 0\<close> is \<^verbatim>\<open>-0.0\<close>) and magnitude \<open>m\<close>; \<open>Inf neg\<close> an infinity.
\<close>

datatype pyfloat = Fin bool rat | Inf bool | NaN

definition pow2 :: "int \<Rightarrow> rat" where
  "pow2 e = (if 0 \<le> e then 2 ^ nat e else 1 / 2 ^ nat (- e))"

definition pow10 :: "int \<Rightarrow> rat" where
  "pow10 e = (if 0 \<le> e then 10 ^ nat e else 1 / 10 ^ nat (- e))"

text \<open>Rounding a rational to the nearest integer, a tie going to the even neighbour.\<close>

definition round_even :: "rat \<Rightarrow> int" where
  "round_even q =
     (let f = \<lfloor>q\<rfloor>; r = q - of_int f
      in if r < 1 / 2 then f else if 1 / 2 < r then f + 1 else if even f then f else f + 1)"

text \<open>The binary exponent of a positive rational: \<open>2 ^ ilog2 q \<le> q < 2 ^ (ilog2 q + 1)\<close>.\<close>

definition ilog2 :: "rat \<Rightarrow> int" where
  "ilog2 q =
     (case quotient_of q of (a, b) \<Rightarrow>
        (let d = bitlen a - bitlen b
         in if q < pow2 d then d - 1 else d))"

text \<open>
  Rounding a magnitude to binary64: 53 significant bits, the spacing never below
  \<open>2 ^ - 1074\<close> (subnormal numbers), \<open>None\<close> when the rounded value is out of range,
  that is, from \<open>2 ^ 1024\<close> on.
\<close>

definition round_double :: "rat \<Rightarrow> rat option" where
  "round_double q =
     (if q = 0 then Some 0
      else (let u = pow2 (max (ilog2 q) (- 1022) - 52); r = of_int (round_even (q / u)) * u
            in if r \<noteq> 0 \<and> 1024 \<le> ilog2 r then None else Some r))"

definition rounded :: "bool \<Rightarrow> rat \<Rightarrow> pyfloat" where
  "rounded neg q = (case round_double q of None \<Rightarrow> Inf neg | Some m \<Rightarrow> Fin neg m)"

text \<open>\<^verbatim>\<open>float(n)\<close> for an integer, and the conversion of an integer operand.\<close>

definition float_of_int :: "int \<Rightarrow> pyerr + pyfloat" where
  "float_of_int i =
     (case round_double (of_int \<bar>i\<bar>) of None \<Rightarrow> Inl OverflowError | Some m \<Rightarrow> Inr (Fin (i < 0) m))"

text \<open>\<^verbatim>\<open>a / b\<close> for two integers: the exact quotient, rounded once.\<close>

definition int_truediv :: "int \<Rightarrow> int \<Rightarrow> pyerr + pyfloat" where
  "int_truediv a b =
     (if b = 0 then Inl ZeroDivisionError
      else (case round_double (of_int \<bar>a\<bar> / of_int \<bar>b\<bar>) of
              None \<Rightarrow> Inl OverflowError
            | Some m \<Rightarrow> Inr (Fin ((a < 0) \<noteq> (b < 0)) m)))"

fun ieee_div :: "pyfloat \<Rightarrow> pyfloat \<Rightarrow> pyfloat" where
  "ieee_div NaN y = NaN"
| "ieee_div x NaN = NaN"
| "ieee_div (Inf s) (Inf t) = NaN"
| "ieee_div (Inf s) (Fin t b) = Inf (s \<noteq> t)"
| "ieee_div (Fin s a) (Inf t) = Fin (s \<noteq> t) 0"
| "ieee_div (Fin s a) (Fin t b) = rounded (s \<noteq> t) (a / b)"

fun ieee_mul :: "pyfloat \<Rightarrow> pyfloat \<Rightarrow> pyfloat" where
  "ieee_mul NaN y = NaN"
| "ieee_mul x NaN = NaN"
| "ieee_mul (Inf s) (Inf t) = Inf (s \<noteq> t)"
| "ieee_mul (Inf s) (Fin t b) = (if b = 0 then NaN else Inf (s \<noteq> t))"
| "ieee_mul (Fin s a) (Inf t) = (if a = 0 then NaN else Inf (s \<noteq> t))"
| "ieee_mul (Fin s a) (Fin t b) = rounded (s \<noteq> t) (a * b)"

text \<open>\<^verbatim>\<open>x / y\<close> for two floats raises on a zero divisor of either sign.\<close>

definition float_truediv :: "pyfloat \<Rightarrow> pyfloat \<Rightarrow> pyerr + pyfloat" where
  "float_truediv x y = (if y = Fin False 0 \<or> y = Fin True 0 then Inl ZeroDivisionError else Inr (ieee_div x y))"

text \<open>\<^verbatim>\<open>i / y\<close> and \<^verbatim>\<open>x * i\<close>, \<^verbatim>\<open>i * x\<close> with an integer \<open>i\<close>: the integer is converted first.\<close>

definition int_div_float :: "int \<Rightarrow> pyfloat \<Rightarrow> pyerr + pyfloat" where
  "int_div_float i y = bnd (float_of_int i) (\<lambda>x. float_truediv x y)"

definition float_mul_int :: "pyfloat \<Rightarrow> int \<Rightarrow> pyerr + pyfloat" where
  "float_mul_int x i = bnd (float_of_int i) (\<lambda>y. Inr (ieee_mul x y))"

text \<open>
  The format specification \<^verbatim>\<open>{x:w.0f}\<close>: no fraction digits, the value rounded to an
  integer (ties to even), the sign kept also on a zero, right-aligned in \<open>w\<close> columns.
\<close>

definition format_f0 :: "nat \<Rightarrow> pyfloat \<Rightarrow> string" where
  "format_f0 w x =
     rjust w (case x of
        NaN \<Rightarrow> ''nan''
      | Inf neg \<Rightarrow> (if neg then ''-inf'' else ''inf'')
      | Fin neg m \<Rightarrow> (if neg then ''-'' else []) @ str_pos (round_even m))"

text \<open>
  \<^verbatim>\<open>float(s)\<close> for a string: white space around, a sign, then \<^verbatim>\<open>inf\<close>,
  \<^verbatim>\<open>infinity\<close> or \<^verbatim>\<open>nan\<close> in any case, or a decimal numeral
  \<^verbatim>\<open>[digitpart] "." digitpart | digitpart ["."]\<close> with an optional exponent
  \<^verbatim>\<open>("e" | "E") [sign] digitpart\<close>. \<open>None\<close> is the \<^verbatim>\<open>ValueError\<close>.
\<close>

definition mantissa :: "string \<Rightarrow> rat option" where
  "mantissa m =
     (let ip = takeWhile (\<lambda>c. c \<noteq> CHR ''.'') m; rest = dropWhile (\<lambda>c. c \<noteq> CHR ''.'') m
      in case rest of
           [] \<Rightarrow> map_option (\<lambda>(v, k). of_int v) (digits ip)
         | dot # fp \<Rightarrow>
             (if ip = [] \<and> fp = [] then None
              else (case (if ip = [] then Some (0, 0) else digits ip,
                          if fp = [] then Some (0, 0) else digits fp) of
                      (Some (v, k), Some (w, j)) \<Rightarrow> Some (of_int v + of_int w / 10 ^ j)
                    | _ \<Rightarrow> None)))"

definition exponent :: "string \<Rightarrow> int option" where
  "exponent e =
     (case sign e of (neg, r) \<Rightarrow>
        (case digits r of None \<Rightarrow> None
         | Some (v, k) \<Rightarrow> Some (if neg then - v else v)))"

definition parse_float :: "string \<Rightarrow> pyfloat option" where
  "parse_float s =
     (case sign (cstrip s) of (neg, r) \<Rightarrow>
        if lower r = ''inf'' \<or> lower r = ''infinity'' then Some (Inf neg)
        else if lower r = ''nan'' then Some NaN
        else (let m = takeWhile (\<lambda>c. c \<noteq> CHR ''e'' \<and> c \<noteq> CHR ''E'') r;
                  rest = dropWhile (\<lambda>c. c \<noteq> CHR ''e'' \<and> c \<noteq> CHR ''E'') r
              in case mantissa m of
                   None \<Rightarrow> None
                 | Some q \<Rightarrow>
                     (case rest of
                        [] \<Rightarrow> Some (rounded neg q)
                      | e # ex \<Rightarrow>
                          (case exponent ex of
                             None \<Rightarrow> None
                           | Some x \<Rightarrow> Some (rounded neg (q * pow10 x))))))"

subsection \<open>Operations on Python values\<close>

text \<open>\<^verbatim>\<open>x[key]\<close> with a string key: only a dictionary can be subscripted so.\<close>

definition getitem :: "jval \<Rightarrow> string \<Rightarrow> pyerr + jval" where
  "getitem x k =
     (case x of
        JObj kvs \<Rightarrow> (case map_of kvs k of None \<Rightarrow> Inl (KeyError (JStr k)) | Some v \<Rightarrow> Inr v)
      | _ \<Rightarrow> Inl TypeError)"

text \<open>
  \<^verbatim>\<open>d[key] = v\<close> on an (ordered) dictionary: a key that is present keeps its place,
  a new key goes to the end.
\<close>

fun dict_set :: "'k \<Rightarrow> 'v \<Rightarrow> ('k \<times> 'v) list \<Rightarrow> ('k \<times> 'v) list" where
  "dict_set k v [] = [(k, v)]"
| "dict_set k v (p # ps) = (if fst p = k then (k, v) # ps else p # dict_set k v ps)"

definition setitem :: "jval \<Rightarrow> string \<Rightarrow> jval \<Rightarrow> pyerr + jval" where
  "setitem x k v = (case x of JObj kvs \<Rightarrow> Inr (JObj (dict_set k v kvs)) | _ \<Rightarrow> Inl TypeError)"

text \<open>\<^verbatim>\<open>s in x\<close> for a string \<open>s\<close>: a substring test on a string, a key test on a dictionary.\<close>

definition py_in :: "string \<Rightarrow> jval \<Rightarrow> pyerr + bool" where
  "py_in s x =
     (case x of
        JStr t \<Rightarrow> Inr (str_in s t)
      | JObj kvs \<Rightarrow> Inr (s \<in> set (map fst kvs))
      | _ \<Rightarrow> Inl TypeError)"

definition py_len :: "jval \<Rightarrow> pyerr + nat" where
  "py_len x =
     (case x of
        JStr t \<Rightarrow> Inr (length t)
      | JObj kvs \<Rightarrow> Inr (length kvs)
      | _ \<Rightarrow> Inl TypeError)"

text \<open>
  \<^verbatim>\<open>repr(x)\<close> and \<^verbatim>\<open>str(x)\<close>. An \<^verbatim>\<open>OrderedDict\<close> prints as a list of pairs
  (the form of Python up to 3.11).
\<close>

fun py_repr :: "jval \<Rightarrow> string" where
  "py_repr (JStr s) = repr_str s"
| "py_repr (JInt i) = str_int i"
| "py_repr JNull = ''None''"
| "py_repr (JObj kvs) =
     (if kvs = [] then ''OrderedDict()''
      else ''OrderedDict(['' @
           join '', '' (map (\<lambda>kv. ''('' @ repr_str (fst kv) @ '', '' @ py_repr (snd kv) @ '')'') kvs) @
           ''])'')"

definition py_str :: "jval \<Rightarrow> string" where
  "py_str x = (case x of JStr s \<Rightarrow> s | _ \<Rightarrow> py_repr x)"

text \<open>\<^verbatim>\<open>x.split(sep)\<close> is a method of strings only.\<close>

definition py_split :: "jval \<Rightarrow> char \<Rightarrow> pyerr + string list" where
  "py_split x sep = (case x of JStr s \<Rightarrow> Inr (split sep s) | _ \<Rightarrow> Inl AttributeError)"

text \<open>\<^verbatim>\<open>int(parts[i])\<close> for a list of strings.\<close>

definition int_at :: "string list \<Rightarrow> nat \<Rightarrow> pyerr + int" where
  "int_at parts i =
     (if i < length parts then of_opt ValueError (parse_int (parts ! i)) else Inl IndexError)"

text \<open>
  \<^verbatim>\<open>x * 100\<close> and \<^verbatim>\<open>x / y\<close> on the values of a record: an integer is multiplied,
  a string repeated; only two integers can be divided.
\<close>

definition py_times_100 :: "jval \<Rightarrow> pyerr + jval" where
  "py_times_100 x =
     (case x of
        JInt n \<Rightarrow> Inr (JInt (n * 100))
      | JStr s \<Rightarrow> Inr (JStr (concat (replicate 100 s)))
      | _ \<Rightarrow> Inl TypeError)"

definition py_truediv :: "jval \<Rightarrow> jval \<Rightarrow> pyerr + pyfloat" where
  "py_truediv x y = (case (x, y) of (JInt a, JInt b) \<Rightarrow> int_truediv a b | _ \<Rightarrow> Inl TypeError)"

subsection \<open>The metric converters\<close>

text \<open>\<^verbatim>\<open>convert_walltime(used_walltime, total_walltime)\<close>, lines 71 to 85.\<close>

definition convert_walltime :: "jval \<Rightarrow> jval \<Rightarrow> pyerr + string" where
  "convert_walltime used_walltime total_walltime =
     bnd (except_KeyError
            (bnd (getitem used_walltime ''resources_used'') (\<lambda>ru. getitem ru ''walltime''))
            (Inr (JStr ''00:00:00''))) (\<lambda>used.
     bnd (getitem total_walltime ''walltime'') (\<lambda>total.
     bnd (py_split used CHR '':'') (\<lambda>us.
     bnd (py_split total CHR '':'') (\<lambda>ts.
     let used2 = take 2 us; total2 = take 2 ts in
     bnd (int_at used2 0) (\<lambda>u0.
     bnd (int_at used2 1) (\<lambda>u1.
     bnd (int_at total2 0) (\<lambda>t0.
     bnd (int_at total2 1) (\<lambda>t1.
     let percentage_numerator = u0 * 60 + u1; percentage_denominator = t0 * 60 + t1 in
     bnd (float_of_int percentage_denominator) (\<lambda>d.
     bnd (int_div_float percentage_numerator d) (\<lambda>q.
     bnd (float_mul_int q 100) (\<lambda>percentage.
     Inr (join '':'' used2 @ ''/'' @ join '':'' total2 @ '' '' @
          ''('' @ format_f0 2 percentage @ ''%)''))))))))))))"

text \<open>\<^verbatim>\<open>convert_cpu_efficiency(used_cpus, total_cpus)\<close>, lines 88 to 94.\<close>

definition convert_cpu_efficiency :: "jval \<Rightarrow> jval \<Rightarrow> pyerr + string" where
  "convert_cpu_efficiency used_cpus total_cpus =
     bnd (except_KeyError
            (bnd (getitem used_cpus ''resources_used'') (\<lambda>ru. getitem ru ''cpupercent''))
            (Inr (JInt 0))) (\<lambda>used.
     bnd (getitem total_cpus ''ncpus'') (\<lambda>total.
     bnd (py_times_100 total) (\<lambda>t100.
     bnd (py_truediv used t100) (\<lambda>q.
     bnd (float_mul_int q 100) (\<lambda>p.
     Inr (format_f0 3 p @ ''%''))))))"

text \<open>
  \<^verbatim>\<open>convert_mem_efficiency(used_mem, total_mem)\<close>, lines 97 to 113. The numeric prefix
  of the request is converted (line 104) before the unit is looked at.
\<close>

definition used_mem_kb :: "jval \<Rightarrow> pyerr + int" where
  "used_mem_kb used_mem =
     except_KeyError
       (bnd (getitem used_mem ''resources_used'') (\<lambda>ru.
        bnd (getitem ru ''mem'') (\<lambda>m.
        case m of
          JStr s \<Rightarrow> of_opt ValueError (parse_int (remove_all ''b'' (remove_all ''kb'' s)))
        | _ \<Rightarrow> Inl AttributeError)))
       (Inr 0)"

definition convert_mem_efficiency :: "jval \<Rightarrow> jval \<Rightarrow> pyerr + string" where
  "convert_mem_efficiency used_mem total_mem =
     bnd (used_mem_kb used_mem) (\<lambda>used.
     bnd (getitem total_mem ''mem'') (\<lambda>m.
     case m of
       JStr s \<Rightarrow>
         (let units = slice_from s (int (length s) - 2) in
          bnd (of_opt ValueError (parse_float (slice_upto s (int (length s) - 2)))) (\<lambda>total.
          let percent = (\<lambda>t.
                bnd (int_div_float used t) (\<lambda>q.
                bnd (float_mul_int q 100) (\<lambda>p. Inr (format_f0 3 p @ ''%''))))
          in if lower units = ''gb''
               then bnd (float_mul_int total 1024) (\<lambda>t1. bnd (float_mul_int t1 1024) percent)
             else if lower units = ''mb'' then bnd (float_mul_int total 1024) percent
             else if lower units = ''kb'' then percent total
             else if lower units = ''0b'' then Inr ''0%''
             else percent total))
     | _ \<Rightarrow> Inl TypeError))"

subsection \<open>The job filter\<close>

text \<open>The column width table of \<^verbatim>\<open>filter_json\<close>, one field for each key (lines 127 to 136).\<close>

record spacing =
  sp_user :: nat
  sp_queue :: nat
  sp_state :: nat
  sp_name :: nat
  sp_mem :: nat
  sp_ncpus :: nat
  sp_jobid :: nat
  sp_walltime :: nat
  sp_cpu_efficiency :: nat
  sp_mem_efficiency :: nat

definition init_spacing :: "string \<Rightarrow> string \<Rightarrow> spacing" where
  "init_spacing user queue =
     \<lparr>sp_user = max 7 (length user), sp_queue = max 7 (length queue), sp_state = 5,
      sp_name = 7, sp_mem = 3, sp_ncpus = 4, sp_jobid = 8, sp_walltime = 8,
      sp_cpu_efficiency = length ''CPU Eff.'', sp_mem_efficiency = length ''MEM Eff.''\<rparr>"

text \<open>Lines 138 and 139: an integer job name is replaced, in the record itself, by its string.\<close>

definition fix_name :: "jval \<Rightarrow> pyerr + jval" where
  "fix_name job =
     bnd (getitem job ''Job_Name'') (\<lambda>nm.
     case nm of JInt i \<Rightarrow> setitem job ''Job_Name'' (JStr (str_int i)) | _ \<Rightarrow> Inr job)"

text \<open>
  The condition of lines 141 to 144. Python's \<^verbatim>\<open>and\<close> stops at the first operand
  that is false, so the fields of the later operands are not read then.
\<close>

definition matches :: "string \<Rightarrow> string \<Rightarrow> string \<Rightarrow> string \<Rightarrow> jval \<Rightarrow> pyerr + bool" where
  "matches user queue state name job =
     bnd (getitem job ''Job_Owner'') (\<lambda>owner.
     bnd (py_in user owner) (\<lambda>b1.
     if \<not> b1 then Inr False else
     bnd (getitem job ''queue'') (\<lambda>q.
     bnd (py_in queue q) (\<lambda>b2.
     if \<not> b2 then Inr False else
     bnd (getitem job ''job_state'') (\<lambda>st.
     bnd (py_in (upper state) st) (\<lambda>b3.
     if \<not> b3 then Inr False else
     bnd (getitem job ''Job_Name'') (\<lambda>nm.
     py_in name nm)))))))"

text \<open>Lines 146 to 162: the seven running maxima, in the order of the source.\<close>

definition widen :: "jval \<Rightarrow> spacing \<Rightarrow> pyerr + spacing" where
  "widen job sp0 =
     bnd (getitem job ''Job_Name'') (\<lambda>nm.
     bnd (py_len nm) (\<lambda>n1.
     let sp1 = sp0\<lparr>sp_name := max (sp_name sp0) n1\<rparr> in
     bnd (getitem job ''Resource_List'') (\<lambda>rl.
     bnd (getitem rl ''mem'') (\<lambda>m.
     bnd (py_len m) (\<lambda>n2.
     let sp2 = sp1\<lparr>sp_mem := max (sp_mem sp1) n2\<rparr> in
     bnd (getitem job ''queue'') (\<lambda>q.
     bnd (py_len q) (\<lambda>n3.
     let sp3 = sp2\<lparr>sp_queue := max (sp_queue sp2) n3\<rparr> in
     bnd (getitem job ''Resource_List'') (\<lambda>rl.
     bnd (convert_walltime job rl) (\<lambda>w.
     let sp4 = sp3\<lparr>sp_walltime := max (sp_walltime sp3) (length w)\<rparr> in
     bnd (getitem job ''Resource_List'') (\<lambda>rl.
     bnd (getitem rl ''ncpus'') (\<lambda>n.
     let sp5 = sp4\<lparr>sp_ncpus := max (sp_ncpus sp4) (length (py_str n))\<rparr> in
     bnd (getitem job ''Resource_List'') (\<lambda>rl.
     bnd (convert_cpu_efficiency job rl) (\<lambda>c.
     let sp6 = sp5\<lparr>sp_cpu_efficiency := max (sp_cpu_efficiency sp5) (length c)\<rparr> in
     bnd (getitem job ''Resource_List'') (\<lambda>rl.
     bnd (convert_mem_efficiency job rl) (\<lambda>e.
     Inr (sp6\<lparr>sp_mem_efficiency := max (sp_mem_efficiency sp6) (length e)\<rparr>))))))))))))))))"

text \<open>
  The \<^verbatim>\<open>try\<close> statement of lines 140 to 165 for one job: only a \<^verbatim>\<open>TypeError\<close> is
  handled, by printing the job and leaving with status 1.
\<close>

definition scan_job ::
  "string \<Rightarrow> string \<Rightarrow> string \<Rightarrow> string \<Rightarrow> string \<Rightarrow> jval \<Rightarrow>
   (string \<times> jval) list \<times> spacing \<Rightarrow> pyerr + (string \<times> jval) list \<times> spacing" where
  "scan_job user queue state name jobid job acc =
     (case bnd (matches user queue state name job) (\<lambda>b.
             if b then bnd (widen job (snd acc)) (\<lambda>sp. Inr (dict_set jobid job (fst acc), sp))
             else Inr acc) of
        Inl TypeError \<Rightarrow> Inl (SystemExit job)
      | r \<Rightarrow> r)"

text \<open>
  The loop of line 137 over the items of \<^verbatim>\<open>json_data["Jobs"]\<close>. The first component
  of the result is that mapping as the loop leaves it (the records are changed in
  place by lines 138 and 139), the second what the loop raises or has accumulated.
\<close>

fun filter_loop ::
  "string \<Rightarrow> string \<Rightarrow> string \<Rightarrow> string \<Rightarrow> (string \<times> jval) list \<Rightarrow>
   (string \<times> jval) list \<times> spacing \<Rightarrow>
   (string \<times> jval) list \<times> (pyerr + (string \<times> jval) list \<times> spacing)" where
  "filter_loop user queue state name [] acc = ([], Inr acc)"
| "filter_loop user queue state name ((jobid, job) # rest) acc =
     (case fix_name job of
        Inl e \<Rightarrow> ((jobid, job) # rest, Inl e)
      | Inr job' \<Rightarrow>
          (case scan_job user queue state name jobid job' acc of
             Inl e \<Rightarrow> ((jobid, job') # rest, Inl e)
           | Inr acc' \<Rightarrow>
               (case filter_loop user queue state name rest acc' of
                  (rest', r) \<Rightarrow> ((jobid, job') # rest', r))))"

text \<open>
  \<^verbatim>\<open>filter_json(json_data, user, queue, state, name)\<close>, lines 123 to 166. The result
  pairs \<^verbatim>\<open>json_data\<close> as the call leaves it with what the call returns or raises.
\<close>

definition filter_json ::
  "jval \<Rightarrow> string \<Rightarrow> string \<Rightarrow> string \<Rightarrow> string \<Rightarrow>
   jval \<times> (pyerr + (string \<times> jval) list \<times> spacing)" where
  "filter_json json_data user queue state name =
     (case getitem json_data ''Jobs'' of
        Inl e \<Rightarrow> (json_data, Inl e)
      | Inr (JObj jobs) \<Rightarrow>
          (case filter_loop user queue state name jobs ([], init_spacing user queue) of
             (jobs', r) \<Rightarrow>
               (case json_data of
                  JObj kvs \<Rightarrow> (JObj (dict_set ''Jobs'' (JObj jobs') kvs), r)
                | _ \<Rightarrow> (json_data, r)))
      | Inr _ \<Rightarrow> (json_data, Inl AttributeError))"

subsection \<open>The table renderer\<close>

definition esc :: "string \<Rightarrow> string" where
  "esc code = CHR 0x1B # code"

text \<open>Lines 171 and 172: every width of the table is increased by one, in the table itself.\<close>

definition pad_spacing :: "spacing \<Rightarrow> spacing" where
  "pad_spacing sp =
     \<lparr>sp_user = sp_user sp + 1, sp_queue = sp_queue sp + 1, sp_state = sp_state sp + 1,
      sp_name = sp_name sp + 1, sp_mem = sp_mem sp + 1, sp_ncpus = sp_ncpus sp + 1,
      sp_jobid = sp_jobid sp + 1, sp_walltime = sp_walltime sp + 1,
      sp_cpu_efficiency = sp_cpu_efficiency sp + 1,
      sp_mem_efficiency = sp_mem_efficiency sp + 1\<rparr>"

text \<open>The header row, lines 173 to 182.\<close>

definition header :: "spacing \<Rightarrow> string" where
  "header sp =
     esc ''[1;32;40m'' @ center (sp_jobid sp) ''JobID'' @
     center (sp_name sp) ''JobName'' @
     center (sp_mem sp) ''Mem'' @
     center (sp_ncpus sp) ''CPUs'' @
     center (sp_user sp) ''User'' @
     center (sp_queue sp) ''Queue'' @
     center (sp_state sp) ''State'' @
     center (sp_walltime sp) ''Walltime'' @
     center (sp_cpu_efficiency sp) ''%CPU'' @
     center (sp_mem_efficiency sp) ''%MEM'' @ esc ''[00m'' @ [CHR 0x0A]"

text \<open>A replacement field \<^verbatim>\<open>{x:^w}\<close>: strings and integers can be centred.\<close>

definition format_center :: "nat \<Rightarrow> jval \<Rightarrow> pyerr + string" where
  "format_center w x =
     (case x of
        JStr s \<Rightarrow> Inr (center w s)
      | JInt i \<Rightarrow> Inr (center w (str_int i))
      | _ \<Rightarrow> Inl TypeError)"

text \<open>One row, lines 185 to 199; nothing is handled here.\<close>

definition table_row :: "spacing \<Rightarrow> string \<Rightarrow> jval \<Rightarrow> pyerr + string" where
  "table_row sp key v =
     bnd (getitem v ''Resource_List'') (\<lambda>rl.
     bnd (convert_walltime v rl) (\<lambda>walltime.
     bnd (getitem v ''Resource_List'') (\<lambda>rl.
     bnd (convert_cpu_efficiency v rl) (\<lambda>cpu_efficiency.
     bnd (getitem v ''Resource_List'') (\<lambda>rl.
     bnd (convert_mem_efficiency v rl) (\<lambda>mem_efficiency.
     bnd (getitem v ''Job_Name'') (\<lambda>nm.
     bnd (format_center (sp_name sp) nm) (\<lambda>c2.
     bnd (getitem v ''Resource_List'') (\<lambda>rl.
     bnd (getitem rl ''mem'') (\<lambda>m.
     bnd (format_center (sp_mem sp) m) (\<lambda>c3.
     bnd (getitem v ''Resource_List'') (\<lambda>rl.
     bnd (getitem rl ''ncpus'') (\<lambda>n.
     bnd (format_center (sp_ncpus sp) n) (\<lambda>c4.
     bnd (getitem v ''Job_Owner'') (\<lambda>owner.
     bnd (py_split owner CHR ''@'') (\<lambda>parts.
     bnd (case parts of [] \<Rightarrow> Inl IndexError | p # ps \<Rightarrow> Inr (center (sp_user sp) p)) (\<lambda>c5.
     bnd (getitem v ''queue'') (\<lambda>q.
     bnd (format_center (sp_queue sp) q) (\<lambda>c6.
     bnd (getitem v ''job_state'') (\<lambda>st.
     bnd (format_center (sp_state sp) st) (\<lambda>c7.
     Inr (center (sp_jobid sp) (remove_all ''.pbs02'' key) @ c2 @ c3 @ c4 @ c5 @ c6 @ c7 @
          center (sp_walltime sp) walltime @
          center (sp_cpu_efficiency sp) cpu_efficiency @
          center (sp_mem_efficiency sp) mem_efficiency @ esc ''[00m'' @ [CHR 0x0A]))))))))))))))))))))))"

text \<open>The loop of lines 184 to 204, with the counter \<^verbatim>\<open>even\<close> (here \<open>even_n\<close>) and the text so far.\<close>

fun table_rows :: "spacing \<Rightarrow> nat \<Rightarrow> (string \<times> jval) list \<Rightarrow> string \<Rightarrow> pyerr + string" where
  "table_rows sp even_n [] csv_table = Inr csv_table"
| "table_rows sp even_n ((key, v) # rest) csv_table =
     bnd (table_row sp key v) (\<lambda>job.
     table_rows sp (even_n + 1) rest
       (csv_table @ (if even_n mod 2 = 0 then esc ''[1;37;48m'' else esc ''[0;37;48m'') @ job))"

text \<open>
  \<^verbatim>\<open>generate_table(json_data, spacing)\<close>, lines 169 to 205: the width table as the call
  leaves it, and what the call returns or raises.
\<close>

definition generate_table :: "(string \<times> jval) list \<Rightarrow> spacing \<Rightarrow> spacing \<times> (pyerr + string)" where
  "generate_table json_data spacing =
     (let sp = pad_spacing spacing in (sp, table_rows sp 0 json_data (header sp)))"

subsection \<open>The summary\<close>

text \<open>
  Dictionaries with arbitrary keys: an \<^verbatim>\<open>OrderedDict\<close> cannot be a key
  (\<^verbatim>\<open>TypeError: unhashable type\<close>), a key that is absent raises \<^verbatim>\<open>KeyError\<close>.
\<close>

definition hashable :: "jval \<Rightarrow> bool" where
  "hashable k = (case k of JObj kvs \<Rightarrow> False | _ \<Rightarrow> True)"

definition dict_get :: "(jval \<times> int) list \<Rightarrow> jval \<Rightarrow> pyerr + int" where
  "dict_get d k =
     (if \<not> hashable k then Inl TypeError
      else (case map_of d k of None \<Rightarrow> Inl (KeyError k) | Some c \<Rightarrow> Inr c))"

definition dict_put :: "(jval \<times> int) list \<Rightarrow> jval \<Rightarrow> int \<Rightarrow> pyerr + (jval \<times> int) list" where
  "dict_put d k c = (if \<not> hashable k then Inl TypeError else Inr (dict_set k c d))"

definition py_rstrip :: "jval \<Rightarrow> pyerr + jval" where
  "py_rstrip x = (case x of JStr s \<Rightarrow> Inr (JStr (rstrip s)) | _ \<Rightarrow> Inl AttributeError)"

text \<open>Lines 58 to 61. The handler reads \<^verbatim>\<open>value['queue']\<close> again.\<close>

definition count_queue :: "jval \<Rightarrow> (jval \<times> int) list \<Rightarrow> pyerr + (jval \<times> int) list" where
  "count_queue v queue_job_counts =
     except_KeyError
       (bnd (getitem v ''queue'') (\<lambda>q.
        bnd (dict_get queue_job_counts q) (\<lambda>c.
        bnd (getitem v ''queue'') (\<lambda>q'.
        dict_put queue_job_counts q' (c + 1)))))
       (bnd (getitem v ''queue'') (\<lambda>q. dict_put queue_job_counts q 1))"

text \<open>
  Lines 62 to 65. The right-hand side is evaluated first, and it looks the state up as
  it is stored; only the key that is assigned to is stripped.
\<close>

definition count_state :: "jval \<Rightarrow> (jval \<times> int) list \<Rightarrow> pyerr + (jval \<times> int) list" where
  "count_state v job_state_counts =
     except_KeyError
       (bnd (getitem v ''job_state'') (\<lambda>st.
        bnd (dict_get job_state_counts st) (\<lambda>c.
        bnd (getitem v ''job_state'') (\<lambda>st'.
        bnd (py_rstrip st') (\<lambda>k.
        dict_put job_state_counts k (c + 1))))))
       (bnd (dict_get job_state_counts (JStr ''Other'')) (\<lambda>c.
        dict_put job_state_counts (JStr ''Other'') (c + 1)))"

fun summarize_loop ::
  "(string \<times> jval) list \<Rightarrow> (jval \<times> int) list \<times> (jval \<times> int) list \<Rightarrow>
   pyerr + (jval \<times> int) list \<times> (jval \<times> int) list" where
  "summarize_loop [] acc = Inr acc"
| "summarize_loop ((key, v) # rest) (queue_job_counts, job_state_counts) =
     bnd (count_queue v queue_job_counts) (\<lambda>qc.
     bnd (count_state v job_state_counts) (\<lambda>sc.
     summarize_loop rest (qc, sc)))"

text \<open>\<^verbatim>\<open>repr\<close> of a dictionary of counts, as an f-string prints it.\<close>

definition repr_counts :: "(jval \<times> int) list \<Rightarrow> string" where
  "repr_counts d = ''{'' @ join '', '' (map (\<lambda>kc. py_repr (fst kc) @ '': '' @ str_int (snd kc)) d) @ ''}''"

text \<open>
  \<^verbatim>\<open>summarize_json(filtered_json)\<close>, lines 50 to 68. The loop of line 57 runs over the
  module's global variable \<^verbatim>\<open>json_data\<close>, not over the parameter: the global is the
  first argument here, \<open>None\<close> when the name is not bound.
\<close>

definition summarize_counts ::
  "(string \<times> jval) list option \<Rightarrow> (string \<times> jval) list \<Rightarrow>
   pyerr + int \<times> (jval \<times> int) list \<times> (jval \<times> int) list" where
  "summarize_counts json_data filtered_json =
     (let number_jobs = int (length filtered_json) in
      case json_data of
        None \<Rightarrow> Inl NameError
      | Some items \<Rightarrow>
          bnd (summarize_loop items ([], [(JStr ''R'', 0), (JStr ''Q'', 0), (JStr ''Other'', 0)]))
            (\<lambda>(queue_job_counts, job_state_counts).
               Inr (number_jobs, queue_job_counts, job_state_counts)))"

definition summarize_json ::
  "(string \<times> jval) list option \<Rightarrow> (string \<times> jval) list \<Rightarrow> pyerr + string" where
  "summarize_json json_data filtered_json =
     bnd (summarize_counts json_data filtered_json)
       (\<lambda>(number_jobs, queue_job_counts, job_state_counts).
          Inr (''NumberOfJobs:'' @ str_int number_jobs @ ''  JobsPerQueue:'' @
               repr_counts queue_job_counts @ ''  '' @
               ''JobStates:'' @ repr_counts job_state_counts))"

subsection \<open>Notions used in the statements\<close>

text \<open>A non-empty numeral: one decimal digit or more.\<close>

definition numeral_str :: "string \<Rightarrow> bool" where
  "numeral_str ds = (ds \<noteq> [] \<and> list_all is_digit ds)"

text \<open>
  The state predicate in the words of the specification: the criterion, compared
  without regard to case, is a substring of the state with its trailing white space
  stripped.
\<close>

definition state_pred_spec :: "string \<Rightarrow> string \<Rightarrow> bool" where
  "state_pred_spec state job_state = str_in (upper state) (upper (rstrip job_state))"

text \<open>One width table is below another when every column is.\<close>

definition spacing_le :: "spacing \<Rightarrow> spacing \<Rightarrow> bool" where
  "spacing_le a b =
     (sp_user a \<le> sp_user b \<and> sp_queue a \<le> sp_queue b \<and> sp_state a \<le> sp_state b \<and>
      sp_name a \<le> sp_name b \<and> sp_mem a \<le> sp_mem b \<and> sp_ncpus a \<le> sp_ncpus b \<and>
      sp_jobid a \<le> sp_jobid b \<and> sp_walltime a \<le> sp_walltime b \<and>
      sp_cpu_efficiency a \<le> sp_cpu_efficiency b \<and> sp_mem_efficiency a \<le> sp_mem_efficiency b)"

text \<open>Every column is at least as wide as its label in the header row (lines 173 to 182).\<close>

definition labels_fit :: "spacing \<Rightarrow> bool" where
  "labels_fit sp =
     (length ''JobID'' \<le> sp_jobid sp \<and> length ''JobName'' \<le> sp_name sp \<and>
      length ''Mem'' \<le> sp_mem sp \<and> length ''CPUs'' \<le> sp_ncpus sp \<and>
      length ''User'' \<le> sp_user sp \<and> length ''Queue'' \<le> sp_queue sp \<and>
      length ''State'' \<le> sp_state sp \<and> length ''Walltime'' \<le> sp_walltime sp \<and>
      length ''%CPU'' \<le> sp_cpu_efficiency sp \<and> length ''%MEM'' \<le> sp_mem_efficiency sp)"

text \<open>A field is present; a record has every field that the filter and the converters read.\<close>

definition has_field :: "jval \<Rightarrow> string \<Rightarrow> bool" where
  "has_field x k = (case getitem x k of Inr v \<Rightarrow> True | Inl e \<Rightarrow> False)"

definition complete_record :: "jval \<Rightarrow> bool" where
  "complete_record job =
     (has_field job ''Job_Name'' \<and> has_field job ''Job_Owner'' \<and> has_field job ''queue'' \<and>
      has_field job ''job_state'' \<and>
      (case getitem job ''Resource_List'' of
         Inr rl \<Rightarrow> has_field rl ''mem'' \<and> has_field rl ''ncpus'' \<and> has_field rl ''walltime''
       | Inl e \<Rightarrow> False))"

text \<open>None of the four fields that the filter compares is a nested object.\<close>

definition is_object :: "jval \<Rightarrow> bool" where
  "is_object x = (case x of JObj kvs \<Rightarrow> True | _ \<Rightarrow> False)"

definition plain_fields :: "jval \<Rightarrow> bool" where
  "plain_fields job =
     list_all (\<lambda>f. case getitem job f of Inr v \<Rightarrow> \<not> is_object v | Inl e \<Rightarrow> True)
       [''Job_Owner'', ''queue'', ''job_state'', ''Job_Name'']"

text \<open>
  What lines 138 and 139 may do to a record: nothing, or replace an integer
  \<^verbatim>\<open>Job_Name\<close> by its decimal string, every other field, the keys and their order
  staying as they are.
\<close>

definition name_fixed :: "jval \<Rightarrow> jval \<Rightarrow> bool" where
  "name_fixed j j' =
     (j' = j \<or>
      (case (j, j') of
         (JObj kvs, JObj kvs') \<Rightarrow>
           list_all2 (\<lambda>a b. fst b = fst a \<and>
                        (snd b = snd a \<or>
                         fst a = ''Job_Name'' \<and>
                         (case snd a of JInt i \<Rightarrow> snd b = JStr (str_int i) | _ \<Rightarrow> False)))
             kvs kvs'
       | _ \<Rightarrow> False))"

text \<open>
  Sample data for the closed instances below: a running job with usage data, a queued
  job without (its name an integer, and the same job with the name as a string), and
  the widths that the filter computes for the two.
\<close>

definition example_request :: jval where
  "example_request =
     JObj [(''mem'', JStr ''16gb''), (''ncpus'', JInt 4), (''walltime'', JStr ''2:00:00'')]"

definition example_running :: jval where
  "example_running =
     JObj [(''Job_Name'', JStr ''sim''), (''Job_Owner'', JStr ''alice@node1''),
           (''queue'', JStr ''batch''), (''job_state'', JStr ''R''),
           (''Resource_List'', example_request),
           (''resources_used'',
            JObj [(''cpupercent'', JInt 200), (''mem'', JStr ''8388608kb''),
                  (''walltime'', JStr ''01:30:12'')])]"

definition example_queued :: jval where
  "example_queued =
     JObj [(''Job_Name'', JInt 42), (''Job_Owner'', JStr ''bob@node2''),
           (''queue'', JStr ''gpu''), (''job_state'', JStr ''Q''),
           (''Resource_List'', example_request)]"

definition example_queued_named :: jval where
  "example_queued_named =
     JObj [(''Job_Name'', JStr ''42''), (''Job_Owner'', JStr ''bob@node2''),
           (''queue'', JStr ''gpu''), (''job_state'', JStr ''Q''),
           (''Resource_List'', example_request)]"

definition example_json :: jval where
  "example_json =
     JObj [(''Jobs'', JObj [(''1.pbs02'', example_running), (''2.pbs02'', example_queued)])]"

definition example_widths :: spacing where
  "example_widths =
     \<lparr>sp_user = 7, sp_queue = 7, sp_state = 5, sp_name = 7, sp_mem = 4, sp_ncpus = 4,
      sp_jobid = 8, sp_walltime = 16, sp_cpu_efficiency = 8, sp_mem_efficiency = 8\<rparr>"

section \<open>Properties\<close>

subsection \<open>Sequencing and lookups\<close>

lemma bnd_Inl [simp]: "bnd (Inl e) f = Inl e"
  by (simp add: bnd_def)

lemma bnd_Inr [simp]: "bnd (Inr x) f = f x"
  by (simp add: bnd_def)

lemma bnd_eq_Inr_iff: "bnd m f = Inr y \<longleftrightarrow> (\<exists>x. m = Inr x \<and> f x = Inr y)"
  by (cases m) simp_all

lemma of_opt_simps [simp]: "of_opt e None = Inl e" "of_opt e (Some x) = Inr x"
  by (simp_all add: of_opt_def)

lemma getitem_Cons_same [simp]: "getitem (JObj ((k, v) # kvs)) k = Inr v"
  by (simp add: getitem_def)

subsection \<open>The memory converter and the unit \<^verbatim>\<open>0b\<close>\<close>

lemma parse_float_empty: "parse_float [] = None"
  by (simp add: parse_float_def cstrip_def mantissa_def digits_def lower_def)

text \<open>
  Claim C2. A request of exactly \<^verbatim>\<open>"0b"\<close> should give \<^verbatim>\<open>"0%"\<close>. In the code the
  prefix in front of the two unit characters is converted by \<^verbatim>\<open>float\<close> on line 104,
  before the branch for \<^verbatim>\<open>0b\<close> on line 111 is reached; for \<^verbatim>\<open>"0b"\<close> that prefix
  is the empty string, so the call raises \<^verbatim>\<open>ValueError\<close> for every job (unless
  reading the used memory has raised before) and never returns \<^verbatim>\<open>"0%"\<close>.
\<close>

theorem convert_mem_efficiency_0b_raises:
  "convert_mem_efficiency job (JObj ((''mem'', JStr ''0b'') # rest)) =
     (case used_mem_kb job of Inl e \<Rightarrow> Inl e | Inr used \<Rightarrow> Inl ValueError)"
  by (cases "used_mem_kb job")
     (simp_all add: convert_mem_efficiency_def slice_upto_def slice_bound_def parse_float_empty)

subsection \<open>Numerals are accepted by \<^verbatim>\<open>float\<close>\<close>

lemma is_digit_not_cspace: "is_digit c \<Longrightarrow> \<not> is_cspace c"
  by (auto simp: is_digit_def is_cspace_def Let_def)

lemma is_digit_cases:
  "is_digit c \<Longrightarrow>
   c \<noteq> CHR ''-'' \<and> c \<noteq> CHR ''+'' \<and> c \<noteq> CHR ''.'' \<and> c \<noteq> CHR ''e'' \<and> c \<noteq> CHR ''E'' \<and>
   c \<noteq> CHR ''_'' \<and> lower_char c = c"
  by (auto simp: is_digit_def lower_char_def Let_def)

lemma cstrip_numeral:
  assumes "numeral_str ds"
  shows "cstrip ds = ds"
proof -
  from assms obtain c cs where ds: "ds = c # cs" and c: "is_digit c"
    by (cases ds) (auto simp: numeral_str_def)
  from assms obtain d rs where rs: "rev ds = d # rs" and d: "is_digit d"
    by (cases "rev ds") (auto simp: numeral_str_def list_all_iff)
  have "dropWhile is_cspace ds = ds"
    using ds c by (simp add: is_digit_not_cspace)
  moreover have "dropWhile is_cspace (rev ds) = rev ds"
    using rs d by (simp add: is_digit_not_cspace)
  ultimately show ?thesis by (simp add: cstrip_def)
qed

lemma sign_numeral: "numeral_str ds \<Longrightarrow> sign ds = (False, ds)"
  by (cases ds) (auto simp: numeral_str_def dest: is_digit_cases)

lemma lower_numeral: "list_all is_digit ds \<Longrightarrow> lower ds = ds"
  by (induction ds) (auto simp: lower_def dest: is_digit_cases)

lemma digitpart_digits:
  "list_all is_digit ds \<Longrightarrow> seen \<or> ds \<noteq> [] \<Longrightarrow> \<exists>r. digitpart acc seen ds = Some r"
proof (induction ds arbitrary: acc seen)
  case Nil
  then show ?case by simp
next
  case (Cons c cs)
  obtain v k where acc: "acc = (v, k)" by (cases acc)
  from Cons.prems have "is_digit c" "list_all is_digit cs" by simp_all
  with Cons.IH[of True "(10 * v + digit_val c, Suc k)"] show ?case by (simp add: acc)
qed

lemma takeWhile_all: "list_all P xs \<Longrightarrow> takeWhile P xs = xs \<and> dropWhile P xs = []"
  by (induction xs) auto

lemma mantissa_numeral:
  assumes "numeral_str ds"
  shows "\<exists>q. mantissa ds = Some q"
proof -
  from assms have "list_all (\<lambda>c. c \<noteq> CHR ''.'') ds"
    by (auto simp: numeral_str_def list_all_iff dest: is_digit_cases)
  then have t: "takeWhile (\<lambda>c. c \<noteq> CHR ''.'') ds = ds" "dropWhile (\<lambda>c. c \<noteq> CHR ''.'') ds = []"
    using takeWhile_all by blast+
  from assms obtain r where "digits ds = Some r"
    using digitpart_digits[of ds False "(0, 0)"] by (auto simp: numeral_str_def digits_def)
  then show ?thesis by (simp add: mantissa_def t)
qed

lemma parse_float_numeral:
  assumes "numeral_str ds"
  shows "\<exists>x. parse_float ds = Some x"
proof -
  from assms obtain c cs where ds: "ds = c # cs" and c: "is_digit c"
    by (cases ds) (auto simp: numeral_str_def)
  from assms have lw: "lower ds = ds" by (simp add: numeral_str_def lower_numeral)
  have ne: "ds \<noteq> ''inf''" "ds \<noteq> ''infinity''" "ds \<noteq> ''nan''"
    using ds c by (auto simp: is_digit_def)
  from assms have "list_all (\<lambda>c. c \<noteq> CHR ''e'' \<and> c \<noteq> CHR ''E'') ds"
    by (auto simp: numeral_str_def list_all_iff dest: is_digit_cases)
  then have t: "takeWhile (\<lambda>c. c \<noteq> CHR ''e'' \<and> c \<noteq> CHR ''E'') ds = ds"
    "dropWhile (\<lambda>c. c \<noteq> CHR ''e'' \<and> c \<noteq> CHR ''E'') ds = []"
    using takeWhile_all by blast+
  from mantissa_numeral[OF assms] obtain q where "mantissa ds = Some q" ..
  then show ?thesis
    by (simp add: parse_float_def cstrip_numeral[OF assms] sign_numeral[OF assms] lw ne t)
qed

lemma slice_suffix2:
  "length u = 2 \<Longrightarrow>
   slice_from (p @ u) (int (length (p @ u)) - 2) = u \<and>
   slice_upto (p @ u) (int (length (p @ u)) - 2) = p"
  by (simp add: slice_from_def slice_upto_def slice_bound_def)

text \<open>
  Claim C10, as stated, promises \<^verbatim>\<open>"0%"\<close> for any used memory. The used memory is
  read first (line 99), and a value such as \<^verbatim>\<open>"1mb"\<close> is not an integer once
  \<^verbatim>\<open>kb\<close> and \<^verbatim>\<open>b\<close> are removed: the call raises before the request is looked at.
\<close>

theorem convert_mem_efficiency_0b_suffix_counterexample:
  "convert_mem_efficiency (JObj [(''resources_used'', JObj [(''mem'', JStr ''1mb'')])])
     (JObj [(''mem'', JStr ''100b'')]) = Inl ValueError"
  by code_simp

text \<open>
  Claim C10, amended. Let the request end in the two characters \<^verbatim>\<open>0b\<close>, and let the
  used memory be absent or readable as an integer. If the prefix in front of \<^verbatim>\<open>0b\<close>
  is a non-empty numeral, the result is the literal \<^verbatim>\<open>"0%"\<close>, whatever the used
  memory is. The prefix is converted before the unit is examined: if \<^verbatim>\<open>float\<close> does
  not accept it, the call raises \<^verbatim>\<open>ValueError\<close> although the unit is \<^verbatim>\<open>0b\<close>.
\<close>

theorem convert_mem_efficiency_0b_suffix:
  assumes "getitem total_mem ''mem'' = Inr (JStr (p @ ''0b''))"
    and "used_mem_kb job = Inr used"
  shows "(numeral_str p \<longrightarrow> convert_mem_efficiency job total_mem = Inr ''0%'') \<and>
         (parse_float p = None \<longrightarrow> convert_mem_efficiency job total_mem = Inl ValueError)"
proof -
  have s: "slice_from (p @ ''0b'') (int (length (p @ ''0b'')) - 2) = ''0b''"
    "slice_upto (p @ ''0b'') (int (length (p @ ''0b'')) - 2) = p"
    using slice_suffix2[of "''0b''" p] by simp_all
  have l: "lower ''0b'' = ''0b''" by (simp add: lower_def lower_char_def)
  have "convert_mem_efficiency job total_mem = Inr ''0%''" if "numeral_str p"
  proof -
    from parse_float_numeral[OF that] obtain x where "parse_float p = Some x" ..
    then show ?thesis
      unfolding convert_mem_efficiency_def using assms by (simp add: s l del: length_append)
  qed
  moreover have "convert_mem_efficiency job total_mem = Inl ValueError" if "parse_float p = None"
    unfolding convert_mem_efficiency_def using assms that by (simp add: s del: length_append)
  ultimately show ?thesis by blast
qed

theorem convert_mem_efficiency_0b_suffix_witness:
  "numeral_str ''10'' \<and>
   used_mem_kb (JObj [(''resources_used'', JObj [(''mem'', JStr ''2048kb'')])]) = Inr 2048 \<and>
   convert_mem_efficiency (JObj [(''resources_used'', JObj [(''mem'', JStr ''2048kb'')])])
     (JObj [(''mem'', JStr ''100b'')]) = Inr ''0%'' \<and>
   parse_float ''x'' = None \<and>
   convert_mem_efficiency (JObj [(''resources_used'', JObj [(''mem'', JStr ''2048kb'')])])
     (JObj [(''mem'', JStr ''x0b'')]) = Inl ValueError"
proof -
  have n: "numeral_str ''10''" by code_simp
  have u: "used_mem_kb (JObj [(''resources_used'', JObj [(''mem'', JStr ''2048kb'')])]) = Inr 2048"
    by code_simp
  have x: "parse_float ''x'' = None" by code_simp
  have g1: "getitem (JObj [(''mem'', JStr ''100b'')]) ''mem'' = Inr (JStr (''10'' @ ''0b''))"
    by simp
  have g2: "getitem (JObj [(''mem'', JStr ''x0b'')]) ''mem'' = Inr (JStr (''x'' @ ''0b''))"
    by simp
  from convert_mem_efficiency_0b_suffix[OF g1 u] convert_mem_efficiency_0b_suffix[OF g2 u] n u x
  show ?thesis by blast
qed

subsection \<open>Rounding to binary64\<close>

lemma pow2_powi: "pow2 e = 2 powi e"
  by (simp add: pow2_def power_int_def inverse_eq_divide power_one_over)

lemma pow2_pos: "0 < pow2 e"
  by (simp add: pow2_powi)

lemma pow2_mono: "a \<le> b \<Longrightarrow> pow2 a \<le> pow2 b"
  by (simp add: pow2_powi power_int_increasing)

lemma pow2_diff: "pow2 (a - b) = pow2 a / pow2 b"
  by (simp add: pow2_powi power_int_diff)

lemma pow2_le_iff: "pow2 a \<le> pow2 b \<longleftrightarrow> a \<le> b"
proof
  assume h: "pow2 a \<le> pow2 b"
  show "a \<le> b"
  proof (rule ccontr)
    assume "\<not> a \<le> b"
    then have "b < a" by simp
    then have "pow2 b < pow2 a" by (simp add: pow2_powi power_int_strict_increasing)
    with h show False by simp
  qed
qed (rule pow2_mono)

lemma ilog2_bounds:
  assumes "0 < q"
  shows "pow2 (ilog2 q) \<le> q \<and> q < pow2 (ilog2 q + 1)"
proof -
  obtain a b where ab: "quotient_of q = (a, b)" by force
  then have b: "0 < b" by (rule quotient_of_denom_pos)
  have q: "q = of_int a / of_int b" using ab by (rule quotient_of_div)
  with assms b have a: "0 < a" by (simp add: zero_less_divide_iff)
  define d where "d = bitlen a - bitlen b"
  have la: "1 \<le> bitlen a" and lb: "1 \<le> bitlen b"
    using a b bitlen_eq_zero_iff[of a] bitlen_eq_zero_iff[of b] bitlen_nonneg[of a] bitlen_nonneg[of b]
    by linarith+
  from bitlen_bounds[OF a] have "2 ^ nat (bitlen a - 1) \<le> a" "a < 2 ^ nat (bitlen a)" by auto
  then have "(of_int (2 ^ nat (bitlen a - 1)) :: rat) \<le> of_int a" "(of_int a :: rat) < of_int (2 ^ nat (bitlen a))"
    by (simp_all only: of_int_le_iff of_int_less_iff)
  then have a1: "pow2 (bitlen a - 1) \<le> of_int a" and a2: "of_int a < pow2 (bitlen a)"
    using la by (simp_all add: pow2_def)
  from bitlen_bounds[OF b] have "2 ^ nat (bitlen b - 1) \<le> b" "b < 2 ^ nat (bitlen b)" by auto
  then have "(of_int (2 ^ nat (bitlen b - 1)) :: rat) \<le> of_int b" "(of_int b :: rat) < of_int (2 ^ nat (bitlen b))"
    by (simp_all only: of_int_le_iff of_int_less_iff)
  then have b1: "pow2 (bitlen b - 1) \<le> of_int b" and b2: "of_int b < pow2 (bitlen b)"
    using lb by (simp_all add: pow2_def)
  have bq: "(0::rat) < of_int b" and aq: "(0::rat) < of_int a" using a b by simp_all
  have "pow2 (d - 1) = pow2 (bitlen a - 1) / pow2 (bitlen b)"
    by (simp add: d_def pow2_diff[symmetric] algebra_simps)
  also have "\<dots> \<le> of_int a / pow2 (bitlen b)"
    using a1 pow2_pos[of "bitlen b"] by (simp add: divide_right_mono)
  also have "\<dots> \<le> of_int a / of_int b"
    using b2 aq bq by (simp add: frac_le)
  finally have lo: "pow2 (d - 1) \<le> q" by (simp add: q)
  have "q = of_int a / of_int b" by (rule q)
  also have "\<dots> \<le> of_int a / pow2 (bitlen b - 1)"
    using b1 aq pow2_pos[of "bitlen b - 1"] by (simp add: frac_le)
  also have "\<dots> < pow2 (bitlen a) / pow2 (bitlen b - 1)"
    using a2 pow2_pos[of "bitlen b - 1"] by (simp add: divide_strict_right_mono)
  also have "\<dots> = pow2 (d + 1)"
    by (simp add: d_def pow2_diff[symmetric] algebra_simps)
  finally have hi: "q < pow2 (d + 1)" .
  have "ilog2 q = (if q < pow2 d then d - 1 else d)"
    by (simp add: ilog2_def ab d_def Let_def)
  with lo hi show ?thesis by (auto simp: not_less)
qed

lemma ilog2_ge_iff:
  assumes "0 < q"
  shows "k \<le> ilog2 q \<longleftrightarrow> pow2 k \<le> q"
proof
  assume "k \<le> ilog2 q"
  then have "pow2 k \<le> pow2 (ilog2 q)" by (rule pow2_mono)
  with ilog2_bounds[OF assms] show "pow2 k \<le> q" by simp
next
  assume h: "pow2 k \<le> q"
  show "k \<le> ilog2 q"
  proof (rule ccontr)
    assume "\<not> k \<le> ilog2 q"
    then have "ilog2 q + 1 \<le> k" by simp
    then have "pow2 (ilog2 q + 1) \<le> pow2 k" by (rule pow2_mono)
    with ilog2_bounds[OF assms] h show False by simp
  qed
qed

lemma round_even_bounds: "\<lfloor>q\<rfloor> \<le> round_even q \<and> round_even q \<le> \<lfloor>q\<rfloor> + 1"
  by (simp add: round_even_def Let_def)

text \<open>
  A magnitude of at least one stays at least one when it is rounded, and a magnitude
  of at most \<open>2 ^ 1023\<close> stays in range.
\<close>

lemma round_double_ge_1:
  assumes "1 \<le> q" and "round_double q = Some r"
  shows "1 \<le> r"
proof -
  have q0: "0 < q" using assms(1) by simp
  define e where "e = ilog2 q"
  have "pow2 0 \<le> q" using assms(1) by (simp add: pow2_def)
  then have e0: "0 \<le> e" unfolding e_def using ilog2_ge_iff[OF q0] by simp
  define u where "u = pow2 (e - 52)"
  have u0: "0 < u" by (simp add: u_def pow2_pos)
  have eq: "pow2 e \<le> q" unfolding e_def using ilog2_bounds[OF q0] by simp
  have "pow2 e / u = pow2 52" by (simp add: u_def pow2_diff[symmetric])
  then have "pow2 52 \<le> q / u" using eq u0 by (metis divide_right_mono less_imp_le)
  moreover have "pow2 52 = of_int (2 ^ 52)" by (simp add: pow2_def)
  ultimately have "(of_int (2 ^ 52) :: rat) \<le> q / u" by simp
  then have "2 ^ 52 \<le> \<lfloor>q / u\<rfloor>" by (simp only: le_floor_iff)
  with round_even_bounds[of "q / u"] have n: "2 ^ 52 \<le> round_even (q / u)" by linarith
  have r: "r = of_int (round_even (q / u)) * u"
    using assms(2) q0 e0 by (auto simp: round_double_def Let_def e_def u_def max_def split: if_splits)
  have "u = pow2 e / pow2 52" by (simp only: u_def pow2_diff)
  then have "pow2 e = pow2 52 * u" using pow2_pos[of 52] by simp
  also have "\<dots> = of_int (2 ^ 52) * u" by (simp add: pow2_def)
  also have "\<dots> \<le> of_int (round_even (q / u)) * u"
    using n u0 by (simp only: mult_le_cancel_right_pos of_int_le_iff)
  finally have "pow2 e \<le> r" by (simp add: r)
  moreover have "pow2 0 \<le> pow2 e" using e0 by (rule pow2_mono)
  ultimately show ?thesis by (simp add: pow2_def)
qed

lemma round_double_in_range:
  assumes "1 \<le> q" and "q \<le> pow2 1023"
  shows "\<exists>r. round_double q = Some r"
proof -
  have q0: "0 < q" using assms(1) by simp
  define e where "e = ilog2 q"
  have "pow2 0 \<le> q" using assms(1) by (simp add: pow2_def)
  then have e0: "0 \<le> e" unfolding e_def using ilog2_ge_iff[OF q0] by simp
  have "pow2 e \<le> pow2 1023" unfolding e_def using ilog2_bounds[OF q0] assms(2) by simp
  then have e1: "e \<le> 1023" by (simp only: pow2_le_iff)
  define u where "u = pow2 (e - 52)"
  have u0: "0 < u" by (simp add: u_def pow2_pos)
  have u1: "u \<le> pow2 971" unfolding u_def using e1 by (intro pow2_mono) simp
  define r where "r = of_int (round_even (q / u)) * u"
  have "of_int (round_even (q / u)) \<le> (of_int (\<lfloor>q / u\<rfloor> + 1) :: rat)"
    using round_even_bounds[of "q / u"] by (simp only: of_int_le_iff)
  also have "\<dots> \<le> q / u + 1" by simp
  finally have "r \<le> (q / u + 1) * u" unfolding r_def using u0 by (simp only: mult_le_cancel_right_pos)
  also have "\<dots> = q + u" using u0 by (simp add: field_simps)
  also have "\<dots> \<le> pow2 1023 + pow2 971" using assms(2) u1 by simp
  also have "\<dots> < pow2 1024" by (simp add: pow2_def)
  finally have lt: "r < pow2 1024" .
  have "\<not> (r \<noteq> 0 \<and> 1024 \<le> ilog2 r)"
  proof
    assume h: "r \<noteq> 0 \<and> 1024 \<le> ilog2 r"
    have "0 \<le> r" unfolding r_def using u0 round_even_bounds[of "q / u"] q0
      by (simp add: zero_le_mult_iff) (smt (verit) divide_nonneg_pos less_imp_le zero_le_floor)
    with h have "0 < r" by simp
    from ilog2_ge_iff[OF this, of 1024] h lt show False by simp
  qed
  moreover have "round_double q = (if r \<noteq> 0 \<and> 1024 \<le> ilog2 r then None else Some r)"
    using q0 e0 by (simp add: round_double_def Let_def e_def u_def r_def max_def)
  ultimately show ?thesis by simp
qed

subsection \<open>Jobs without usage data\<close>

lemma round_double_0 [simp]: "round_double 0 = Some 0"
  by (simp add: round_double_def)

lemma float_of_int_0: "float_of_int 0 = Inr (Fin False 0)"
  by (simp add: float_of_int_def)

lemma float_of_int_100: "float_of_int 100 = Inr (Fin False 100)"
  by code_simp

lemma float_of_int_1024: "float_of_int 1024 = Inr (Fin False 1024)"
  by code_simp

lemma format_f0_zero: "format_f0 2 (Fin False 0) = '' 0''" "format_f0 3 (Fin False 0) = ''  0''"
  by code_simp+

lemma zero_percent: "float_mul_int (Fin False 0) 100 = Inr (Fin False 0)"
  by (simp add: float_mul_int_def float_of_int_100 rounded_def)

text \<open>A float that is positive: an infinity, or a finite magnitude of at least one.\<close>

lemma rounded_ge_1:
  "1 \<le> q \<Longrightarrow> rounded False q = Inf False \<or> (\<exists>r. rounded False q = Fin False r \<and> 1 \<le> r)"
  by (cases "round_double q") (auto simp: rounded_def dest: round_double_ge_1)

lemma times_1024_ge_1:
  assumes "x = Inf False \<or> (\<exists>r. x = Fin False r \<and> 1 \<le> r)"
  shows "\<exists>y. float_mul_int x 1024 = Inr y \<and> (y = Inf False \<or> (\<exists>r. y = Fin False r \<and> 1 \<le> r))"
proof -
  from assms show ?thesis
  proof
    assume "x = Inf False"
    then show ?thesis by (simp add: float_mul_int_def float_of_int_1024)
  next
    assume "\<exists>r. x = Fin False r \<and> 1 \<le> r"
    then obtain r where x: "x = Fin False r" and r: "1 \<le> r" by blast
    then have "1 \<le> r * 1024" by simp
    from rounded_ge_1[OF this] show ?thesis
      by (simp add: float_mul_int_def float_of_int_1024 x)
  qed
qed

lemma zero_div_ge_1:
  assumes "x = Inf False \<or> (\<exists>r. x = Fin False r \<and> 1 \<le> r)"
  shows "int_div_float 0 x = Inr (Fin False 0)"
  using assms
  by (auto simp: int_div_float_def float_of_int_0 float_truediv_def rounded_def)

lemma digits_parse_int:
  assumes "numeral_str ds" and "parse_int ds = Some v"
  shows "parse_float ds = Some (rounded False (of_int v))"
proof -
  from assms(1) obtain c cs where ds: "ds = c # cs" and c: "is_digit c"
    by (cases ds) (auto simp: numeral_str_def)
  from assms(1) have lw: "lower ds = ds" by (simp add: numeral_str_def lower_numeral)
  have ne: "ds \<noteq> ''inf''" "ds \<noteq> ''infinity''" "ds \<noteq> ''nan''"
    using ds c by (auto simp: is_digit_def)
  from assms(1) have "list_all (\<lambda>c. c \<noteq> CHR ''e'' \<and> c \<noteq> CHR ''E'') ds"
    by (auto simp: numeral_str_def list_all_iff dest: is_digit_cases)
  then have t: "takeWhile (\<lambda>c. c \<noteq> CHR ''e'' \<and> c \<noteq> CHR ''E'') ds = ds"
    "dropWhile (\<lambda>c. c \<noteq> CHR ''e'' \<and> c \<noteq> CHR ''E'') ds = []"
    using takeWhile_all by blast+
  from assms(1) have "list_all (\<lambda>c. c \<noteq> CHR ''.'') ds"
    by (auto simp: numeral_str_def list_all_iff dest: is_digit_cases)
  then have t': "takeWhile (\<lambda>c. c \<noteq> CHR ''.'') ds = ds" "dropWhile (\<lambda>c. c \<noteq> CHR ''.'') ds = []"
    using takeWhile_all by blast+
  from assms obtain k where "digits ds = Some (v, k)"
    by (auto simp: parse_int_def cstrip_numeral sign_numeral split: option.splits)
  then have "mantissa ds = Some (of_int v)" by (simp add: mantissa_def t')
  then show ?thesis
    by (simp add: parse_float_def cstrip_numeral[OF assms(1)] sign_numeral[OF assms(1)] lw ne t)
qed

lemma no_usage_walltime:
  assumes "getitem job ''resources_used'' = Inl (KeyError (JStr ''resources_used''))"
  shows "except_KeyError (bnd (getitem job ''resources_used'') (\<lambda>ru. getitem ru k)) h = h"
  using assms by (simp add: except_KeyError_def)

lemma split_zero_time: "take 2 (split CHR '':'' ''00:00:00'') = [''00'', ''00'']"
  by simp

lemma parse_int_00: "parse_int ''00'' = Some 0"
  by code_simp

lemma int_at_simps:
  "int_at (a # as) 0 = of_opt ValueError (parse_int a)"
  "int_at (a # b # bs) (Suc 0) = of_opt ValueError (parse_int b)"
  by (simp_all add: int_at_def)

lemma convert_walltime_no_usage:
  assumes "getitem job ''resources_used'' = Inl (KeyError (JStr ''resources_used''))"
    and "convert_walltime job rl = Inr w"
  shows "\<exists>rest. w = ''00:00/'' @ rest"
  using assms(2) unfolding convert_walltime_def no_usage_walltime[OF assms(1)]
  by (auto simp: bnd_eq_Inr_iff py_split_def split_zero_time Let_def)

lemma convert_walltime_no_usage_total:
  assumes nu: "getitem job ''resources_used'' = Inl (KeyError (JStr ''resources_used''))"
    and wt: "getitem rl ''walltime'' = Inr (JStr budget)"
    and sp: "split CHR '':'' budget = h # m # rest"
    and h: "parse_int h = Some t0" and m: "parse_int m = Some t1"
    and lo: "1 \<le> t0 * 60 + t1" and hi: "t0 * 60 + t1 \<le> 2 ^ 1023"
  shows "convert_walltime job rl = Inr (''00:00/'' @ h @ '':'' @ m @ '' ( 0%)'')"
proof -
  define den where "den = t0 * 60 + t1"
  have "(1::rat) \<le> of_int den" using lo by (simp add: den_def)
  moreover have "(of_int den :: rat) \<le> of_int (2 ^ 1023)" using hi unfolding den_def by (simp only: of_int_le_iff)
  then have "(of_int den :: rat) \<le> pow2 1023" by (simp add: pow2_def)
  ultimately obtain r where r: "round_double (of_int den) = Some r" and r1: "1 \<le> r"
    using round_double_in_range round_double_ge_1 by blast
  have ab: "\<bar>den\<bar> = den" "\<not> den < 0" using lo by (simp_all add: den_def)
  have d: "float_of_int (t0 * 60 + t1) = Inr (Fin False r)"
    using ab r by (simp add: float_of_int_def den_def)
  have q: "int_div_float 0 (Fin False r) = Inr (Fin False 0)"
    using r1 by (intro zero_div_ge_1) simp
  show ?thesis
    unfolding convert_walltime_def no_usage_walltime[OF nu]
    by (simp add: wt py_split_def sp int_at_simps parse_int_00 h m d q
        zero_percent format_f0_zero Let_def)
qed

lemma convert_cpu_efficiency_no_usage:
  assumes nu: "getitem job ''resources_used'' = Inl (KeyError (JStr ''resources_used''))"
    and n: "getitem rl ''ncpus'' = Inr (JInt n)" and pos: "0 < n"
  shows "convert_cpu_efficiency job rl = Inr ''  0%''"
  unfolding convert_cpu_efficiency_def no_usage_walltime[OF nu]
  using pos
  by (simp add: n py_times_100_def py_truediv_def int_truediv_def zero_percent format_f0_zero)

lemma used_mem_kb_no_usage:
  assumes "getitem job ''resources_used'' = Inl (KeyError (JStr ''resources_used''))"
  shows "used_mem_kb job = Inr 0"
  using assms by (simp add: used_mem_kb_def except_KeyError_def)

lemma convert_mem_efficiency_no_usage:
  assumes nu: "getitem job ''resources_used'' = Inl (KeyError (JStr ''resources_used''))"
    and mm: "getitem rl ''mem'' = Inr (JStr (ds @ u))"
    and ds: "numeral_str ds" and u: "length u = 2"
    and v: "parse_int ds = Some v" and pos: "0 < v"
  shows "convert_mem_efficiency job rl = Inr (if lower u = ''0b'' then ''0%'' else ''  0%'')"
proof -
  have s: "slice_from (ds @ u) (int (length (ds @ u)) - 2) = u"
    "slice_upto (ds @ u) (int (length (ds @ u)) - 2) = ds"
    using slice_suffix2[OF u, of ds] by simp_all
  have "(1::rat) \<le> of_int v" using pos by simp
  from rounded_ge_1[OF this]
  have t: "rounded False (of_int v) = Inf False \<or> (\<exists>r. rounded False (of_int v) = Fin False r \<and> 1 \<le> r)" .
  from times_1024_ge_1[OF t] obtain t1 where
    t1: "float_mul_int (rounded False (of_int v)) 1024 = Inr t1"
      "t1 = Inf False \<or> (\<exists>r. t1 = Fin False r \<and> 1 \<le> r)" by blast
  from times_1024_ge_1[OF t1(2)] obtain t2 where
    t2: "float_mul_int t1 1024 = Inr t2"
      "t2 = Inf False \<or> (\<exists>r. t2 = Fin False r \<and> 1 \<le> r)" by blast
  show ?thesis
    unfolding convert_mem_efficiency_def used_mem_kb_no_usage[OF nu]
    by (simp add: mm s digits_parse_int[OF ds v] t1(1) t2(1) zero_div_ge_1[OF t]
        zero_div_ge_1[OF t1(2)] zero_div_ge_1[OF t2(2)] zero_percent format_f0_zero Let_def
        del: length_append)
qed

text \<open>
  Claim C3, as stated, fails. Without usage data the used walltime defaults to
  \<^verbatim>\<open>"00:00:00"\<close> (line 75), whose first two components are joined again: the used
  portion is rendered \<^verbatim>\<open>00:00\<close>, not \<^verbatim>\<open>0:00\<close>. And not every such job gets a
  percentage: with \<^verbatim>\<open>ncpus\<close> 0, and with a memory request of \<^verbatim>\<open>"0gb"\<close>, the
  division raises \<^verbatim>\<open>ZeroDivisionError\<close>.
\<close>

theorem convert_no_usage_counterexample:
  "convert_walltime (JObj []) (JObj [(''walltime'', JStr ''2:00:00'')]) = Inr ''00:00/2:00 ( 0%)'' \<and>
   \<not> startswith ''00:00/2:00 ( 0%)'' ''0:00'' \<and>
   convert_cpu_efficiency (JObj []) (JObj [(''ncpus'', JInt 0)]) = Inl ZeroDivisionError \<and>
   convert_mem_efficiency (JObj []) (JObj [(''mem'', JStr ''0gb'')]) = Inl ZeroDivisionError"
  by code_simp

text \<open>
  Claim C3, amended. For every job record in which \<^verbatim>\<open>resources_used\<close> is absent:
  \<^item> whatever \<^verbatim>\<open>convert_walltime\<close> returns begins with \<^verbatim>\<open>00:00/\<close>, and it returns
    \<^verbatim>\<open>00:00/H:M ( 0%)\<close> when the budget is \<^verbatim>\<open>H:M\<close> or \<^verbatim>\<open>H:M:...\<close> with integers
    \<open>H\<close>, \<open>M\<close> and \<open>1 \<le> 60 H + M \<le> 2 ^ 1023\<close>;
  \<^item> \<^verbatim>\<open>convert_cpu_efficiency\<close> returns \<^verbatim>\<open>"  0%"\<close> when \<^verbatim>\<open>ncpus\<close> is a positive integer;
  \<^item> \<^verbatim>\<open>convert_mem_efficiency\<close> returns \<^verbatim>\<open>"  0%"\<close> when the request is a positive
    numeral followed by two unit characters (the literal \<^verbatim>\<open>"0%"\<close> when these are
    \<^verbatim>\<open>0b\<close>).
\<close>

theorem convert_no_usage:
  assumes "getitem job ''resources_used'' = Inl (KeyError (JStr ''resources_used''))"
  shows "(\<forall>w. convert_walltime job rl = Inr w \<longrightarrow> (\<exists>rest. w = ''00:00/'' @ rest)) \<and>
         (\<forall>budget h m rest t0 t1.
            getitem rl ''walltime'' = Inr (JStr budget) \<and> split CHR '':'' budget = h # m # rest \<and>
            parse_int h = Some t0 \<and> parse_int m = Some t1 \<and>
            1 \<le> t0 * 60 + t1 \<and> t0 * 60 + t1 \<le> 2 ^ 1023 \<longrightarrow>
            convert_walltime job rl = Inr (''00:00/'' @ h @ '':'' @ m @ '' ( 0%)'')) \<and>
         (\<forall>n. getitem rl ''ncpus'' = Inr (JInt n) \<and> 0 < n \<longrightarrow>
            convert_cpu_efficiency job rl = Inr ''  0%'') \<and>
         (\<forall>ds u v.
            getitem rl ''mem'' = Inr (JStr (ds @ u)) \<and> numeral_str ds \<and> length u = 2 \<and>
            parse_int ds = Some v \<and> 0 < v \<longrightarrow>
            convert_mem_efficiency job rl = Inr (if lower u = ''0b'' then ''0%'' else ''  0%''))"
proof (intro conjI allI impI)
  fix w
  assume "convert_walltime job rl = Inr w"
  with assms show "\<exists>rest. w = ''00:00/'' @ rest" by (rule convert_walltime_no_usage)
next
  fix budget h m rest t0 t1
  assume "getitem rl ''walltime'' = Inr (JStr budget) \<and> split CHR '':'' budget = h # m # rest \<and>
          parse_int h = Some t0 \<and> parse_int m = Some t1 \<and>
          1 \<le> t0 * 60 + t1 \<and> t0 * 60 + t1 \<le> 2 ^ 1023"
  with assms show "convert_walltime job rl = Inr (''00:00/'' @ h @ '':'' @ m @ '' ( 0%)'')"
    by (blast intro: convert_walltime_no_usage_total)
next
  fix n
  assume "getitem rl ''ncpus'' = Inr (JInt n) \<and> 0 < n"
  with assms show "convert_cpu_efficiency job rl = Inr ''  0%''"
    by (blast intro: convert_cpu_efficiency_no_usage)
next
  fix ds u v
  assume "getitem rl ''mem'' = Inr (JStr (ds @ u)) \<and> numeral_str ds \<and> length u = 2 \<and>
          parse_int ds = Some v \<and> 0 < v"
  with assms show "convert_mem_efficiency job rl = Inr (if lower u = ''0b'' then ''0%'' else ''  0%'')"
    by (blast intro: convert_mem_efficiency_no_usage)
qed

theorem convert_no_usage_witness:
  "getitem (JObj [(''Job_Name'', JStr ''sim''), (''job_state'', JStr ''Q'')]) ''resources_used'' =
     Inl (KeyError (JStr ''resources_used'')) \<and>
   convert_walltime (JObj [(''Job_Name'', JStr ''sim''), (''job_state'', JStr ''Q'')])
     (JObj [(''mem'', JStr ''16gb''), (''ncpus'', JInt 4), (''walltime'', JStr ''24:00:00'')]) =
     Inr ''00:00/24:00 ( 0%)'' \<and>
   convert_cpu_efficiency (JObj [(''Job_Name'', JStr ''sim''), (''job_state'', JStr ''Q'')])
     (JObj [(''mem'', JStr ''16gb''), (''ncpus'', JInt 4), (''walltime'', JStr ''24:00:00'')]) =
     Inr ''  0%'' \<and>
   convert_mem_efficiency (JObj [(''Job_Name'', JStr ''sim''), (''job_state'', JStr ''Q'')])
     (JObj [(''mem'', JStr ''16gb''), (''ncpus'', JInt 4), (''walltime'', JStr ''24:00:00'')]) =
     Inr ''  0%''"
proof -
  let ?job = "JObj [(''Job_Name'', JStr ''sim''), (''job_state'', JStr ''Q'')]"
  let ?rl = "JObj [(''mem'', JStr ''16gb''), (''ncpus'', JInt 4), (''walltime'', JStr ''24:00:00'')]"
  have nu: "getitem ?job ''resources_used'' = Inl (KeyError (JStr ''resources_used''))"
    by (simp add: getitem_def)
  note inst = convert_no_usage[OF nu, of ?rl]
  have w: "getitem ?rl ''walltime'' = Inr (JStr ''24:00:00'') \<and>
           split CHR '':'' ''24:00:00'' = ''24'' # ''00'' # [''00''] \<and>
           parse_int ''24'' = Some 24 \<and> parse_int ''00'' = Some 0 \<and>
           1 \<le> (24::int) * 60 + 0 \<and> (24::int) * 60 + 0 \<le> 2 ^ 1023"
    by code_simp
  have c: "getitem ?rl ''ncpus'' = Inr (JInt 4) \<and> (0::int) < 4"
    by (simp add: getitem_def)
  have m: "getitem ?rl ''mem'' = Inr (JStr (''16'' @ ''gb'')) \<and> numeral_str ''16'' \<and>
           length ''gb'' = 2 \<and> parse_int ''16'' = Some 16 \<and> (0::int) < 16"
    by code_simp
  have l: "lower ''gb'' \<noteq> ''0b''" by code_simp
  from inst[THEN conjunct2, THEN conjunct1, rule_format, OF w]
  have 1: "convert_walltime ?job ?rl = Inr ''00:00/24:00 ( 0%)''" by simp
  from inst[THEN conjunct2, THEN conjunct2, THEN conjunct1, rule_format, OF c]
  have 2: "convert_cpu_efficiency ?job ?rl = Inr ''  0%''" .
  from inst[THEN conjunct2, THEN conjunct2, THEN conjunct2, rule_format, OF m] l
  have 3: "convert_mem_efficiency ?job ?rl = Inr ''  0%''" by simp
  from nu 1 2 3 show ?thesis by blast
qed

subsection \<open>The four predicates of the filter\<close>

lemma str_in_empty [simp]: "str_in [] t"
  by (cases t) simp_all

lemma py_in_JStr [simp]: "py_in s (JStr t) = Inr (str_in s t)"
  by (simp add: py_in_def)

lemma matches_strings:
  assumes "getitem job ''Job_Owner'' = Inr (JStr owner)"
    and "getitem job ''queue'' = Inr (JStr q)"
    and "getitem job ''job_state'' = Inr (JStr st)"
    and "getitem job ''Job_Name'' = Inr (JStr nm)"
  shows "matches user queue state name job =
         Inr (str_in user owner \<and> str_in queue q \<and> str_in (upper state) st \<and> str_in name nm)"
  using assms by (simp add: matches_def)

text \<open>
  Claim C4, as stated, fails in both directions. The code upper-cases the criterion and
  looks for it in the state as it is stored: a lower-case state \<^verbatim>\<open>r\<close> is not found
  by the criterion \<^verbatim>\<open>r\<close>, and the criterion of one blank is found in \<^verbatim>\<open>"R "\<close>,
  whose stripped form has no blank.
\<close>

theorem state_predicate_counterexample:
  "matches '''' '''' ''r'' ''''
     (JObj [(''Job_Name'', JStr ''sim''), (''Job_Owner'', JStr ''alice@node1''),
            (''queue'', JStr ''batch''), (''job_state'', JStr ''r'')]) = Inr False \<and>
   state_pred_spec ''r'' ''r'' \<and>
   matches '''' '''' '' '' ''''
     (JObj [(''Job_Name'', JStr ''sim''), (''Job_Owner'', JStr ''alice@node1''),
            (''queue'', JStr ''batch''), (''job_state'', JStr ''R '')]) = Inr True \<and>
   \<not> state_pred_spec '' '' ''R ''"
  by code_simp

text \<open>
  Claim C4, amended. For a record whose owner, queue, state and name are strings, the
  condition of the filter is the conjunction of four substring tests, and its state
  part holds iff the upper-cased criterion is a substring of the record's
  \<^verbatim>\<open>job_state\<close> as it is stored: the case of the criterion does not matter, the case
  of the stored state does, and trailing white space is not stripped. On a stored state
  that has no lower-case letter and no trailing white space this is the predicate of
  the specification.
\<close>

theorem state_predicate:
  assumes "getitem job ''Job_Owner'' = Inr (JStr owner)"
    and "getitem job ''queue'' = Inr (JStr q)"
    and "getitem job ''job_state'' = Inr (JStr st)"
    and "getitem job ''Job_Name'' = Inr (JStr nm)"
  shows "matches user queue state name job =
           Inr (str_in user owner \<and> str_in queue q \<and> str_in (upper state) st \<and> str_in name nm) \<and>
         matches '''' '''' state '''' job = Inr (str_in (upper state) st) \<and>
         (upper state' = upper state \<longrightarrow>
            matches user queue state' name job = matches user queue state name job) \<and>
         (upper st = st \<and> rstrip st = st \<longrightarrow>
            matches '''' '''' state '''' job = Inr (state_pred_spec state st))"
  by (simp add: matches_strings[OF assms] state_pred_spec_def)

theorem state_predicate_witness:
  "getitem (JObj [(''Job_Name'', JStr ''sim''), (''Job_Owner'', JStr ''alice@node1''),
                  (''queue'', JStr ''batch''), (''job_state'', JStr ''R'')]) ''job_state'' =
     Inr (JStr ''R'') \<and>
   upper ''r'' = upper ''R'' \<and> upper ''R'' = ''R'' \<and> rstrip ''R'' = ''R'' \<and>
   matches ''alice'' '''' ''r'' ''''
     (JObj [(''Job_Name'', JStr ''sim''), (''Job_Owner'', JStr ''alice@node1''),
            (''queue'', JStr ''batch''), (''job_state'', JStr ''R'')]) = Inr True \<and>
   matches '''' '''' ''r'' ''''
     (JObj [(''Job_Name'', JStr ''sim''), (''Job_Owner'', JStr ''alice@node1''),
            (''queue'', JStr ''batch''), (''job_state'', JStr ''R'')]) =
     Inr (state_pred_spec ''r'' ''R'') \<and>
   state_pred_spec ''r'' ''R''"
proof -
  let ?job = "JObj [(''Job_Name'', JStr ''sim''), (''Job_Owner'', JStr ''alice@node1''),
                    (''queue'', JStr ''batch''), (''job_state'', JStr ''R'')]"
  have g: "getitem ?job ''Job_Owner'' = Inr (JStr ''alice@node1'')"
    "getitem ?job ''queue'' = Inr (JStr ''batch'')"
    "getitem ?job ''job_state'' = Inr (JStr ''R'')"
    "getitem ?job ''Job_Name'' = Inr (JStr ''sim'')"
    by (simp_all add: getitem_def)
  have e: "upper ''r'' = upper ''R'' \<and> upper ''R'' = ''R'' \<and> rstrip ''R'' = ''R'' \<and>
        str_in ''alice'' ''alice@node1'' \<and> str_in (upper ''r'') ''R'' \<and> state_pred_spec ''r'' ''R''"
    by code_simp
  from state_predicate[OF g, of "''alice''" "''''" "''r''" "''''" "''R''"] g(3) e
  show ?thesis by simp
qed

subsection \<open>What the filter does to its input\<close>

lemma map_of_dict_set_same [simp]: "map_of (dict_set k v kvs) k = Some v"
  by (induction kvs) auto

lemma map_of_dict_set_other [simp]: "k' \<noteq> k \<Longrightarrow> map_of (dict_set k v kvs) k' = map_of kvs k'"
  by (induction kvs) auto

lemma dict_set_fresh: "k \<notin> fst ` set kvs \<Longrightarrow> dict_set k v kvs = kvs @ [(k, v)]"
  by (induction kvs) auto

lemma set_dict_set: "set (dict_set k v kvs) \<subseteq> insert (k, v) (set kvs)"
  by (induction kvs) auto

lemma dict_set_name_fixed:
  "map_of kvs k = Some (JInt i) \<Longrightarrow>
   list_all2 (\<lambda>a b. fst b = fst a \<and>
                (snd b = snd a \<or>
                 fst a = k \<and> (case snd a of JInt i \<Rightarrow> snd b = JStr (str_int i) | _ \<Rightarrow> False)))
     kvs (dict_set k (JStr (str_int i)) kvs)"
proof (induction kvs)
  case Nil
  then show ?case by simp
next
  case (Cons p ps)
  show ?case
  proof (cases "fst p = k")
    case True
    with Cons.prems have "snd p = JInt i" by (cases p) simp
    with True show ?thesis by (simp add: list_all2_refl)
  next
    case False
    with Cons show ?thesis by (cases p) auto
  qed
qed

lemma fix_name_cases:
  assumes "fix_name job = Inr job'"
  shows "job' = job \<or>
         (\<exists>kvs i. job = JObj kvs \<and> map_of kvs ''Job_Name'' = Some (JInt i) \<and>
                  job' = JObj (dict_set ''Job_Name'' (JStr (str_int i)) kvs))"
proof -
  from assms obtain nm where g: "getitem job ''Job_Name'' = Inr nm"
    and c: "(case nm of JInt i \<Rightarrow> setitem job ''Job_Name'' (JStr (str_int i)) | _ \<Rightarrow> Inr job) = Inr job'"
    by (auto simp: fix_name_def bnd_eq_Inr_iff)
  from g obtain kvs where j: "job = JObj kvs" and m: "map_of kvs ''Job_Name'' = Some nm"
    by (cases job) (auto simp: getitem_def split: option.splits)
  show ?thesis
  proof (cases nm)
    case (JInt i)
    with c j m show ?thesis by (auto simp: setitem_def)
  qed (use c in simp_all)
qed

lemma fix_name_name_fixed: "fix_name job = Inr job' \<Longrightarrow> name_fixed job job'"
  by (auto simp: name_fixed_def dest!: fix_name_cases intro: dict_set_name_fixed)

lemma fix_name_getitem_other:
  "fix_name job = Inr job' \<Longrightarrow> f \<noteq> ''Job_Name'' \<Longrightarrow> getitem job' f = getitem job f"
  by (auto simp: getitem_def dest!: fix_name_cases)

lemma filter_loop_input:
  "filter_loop user queue state name jobs acc = (jobs', r) \<Longrightarrow>
   list_all2 (\<lambda>a b. fst b = fst a \<and> name_fixed (snd a) (snd b)) jobs jobs'"
proof (induction jobs arbitrary: acc jobs' r)
  case Nil
  then show ?case by simp
next
  case (Cons p ps)
  obtain jobid job where p: "p = (jobid, job)" by (cases p)
  have refl: "list_all2 (\<lambda>a b. fst b = fst a \<and> name_fixed (snd a) (snd b)) ps ps"
    by (simp add: list_all2_refl name_fixed_def)
  show ?case
  proof (cases "fix_name job")
    case (Inl e)
    with Cons.prems p refl show ?thesis by (auto simp: name_fixed_def)
  next
    case (Inr job1)
    note fx = fix_name_name_fixed[OF Inr]
    show ?thesis
    proof (cases "scan_job user queue state name jobid job1 acc")
      case (Inl e)
      with Cons.prems p Inr fx refl show ?thesis by auto
    next
      case Inr2: (Inr acc1)
      obtain ps1 r1 where l: "filter_loop user queue state name ps acc1 = (ps1, r1)"
        by (cases "filter_loop user queue state name ps acc1")
      from Cons.IH[OF l] Cons.prems p Inr Inr2 l fx show ?thesis by auto
    qed
  qed
qed

lemma filter_json_unfold:
  assumes "getitem json_data ''Jobs'' = Inr (JObj jobs)"
  shows "snd (filter_json json_data user queue state name) =
           snd (filter_loop user queue state name jobs ([], init_spacing user queue)) \<and>
         getitem (fst (filter_json json_data user queue state name)) ''Jobs'' =
           Inr (JObj (fst (filter_loop user queue state name jobs ([], init_spacing user queue)))) \<and>
         (\<forall>k. k \<noteq> ''Jobs'' \<longrightarrow>
            getitem (fst (filter_json json_data user queue state name)) k = getitem json_data k)"
proof -
  from assms obtain kvs where jd: "json_data = JObj kvs"
    by (cases json_data) (simp_all add: getitem_def)
  obtain jobs' r where l: "filter_loop user queue state name jobs ([], init_spacing user queue) = (jobs', r)"
    by (cases "filter_loop user queue state name jobs ([], init_spacing user queue)")
  show ?thesis
    using assms by (simp add: filter_json_def l jd) (simp add: getitem_def)
qed

text \<open>
  Claim C9, as stated, fails: lines 138 and 139 store the string of an integer job
  name into the input record itself.
\<close>

theorem filter_json_input_counterexample:
  "fst (filter_json
         (JObj [(''Jobs'', JObj [(''7.pbs02'',
            JObj [(''Job_Name'', JInt 42), (''Job_Owner'', JStr ''alice@node1''),
                  (''queue'', JStr ''batch''), (''job_state'', JStr ''Q''),
                  (''Resource_List'', JObj [(''mem'', JStr ''16gb''), (''ncpus'', JInt 4),
                                            (''walltime'', JStr ''24:00:00'')])])])])
         ''alice'' '''' '''' '''') =
   JObj [(''Jobs'', JObj [(''7.pbs02'',
            JObj [(''Job_Name'', JStr ''42''), (''Job_Owner'', JStr ''alice@node1''),
                  (''queue'', JStr ''batch''), (''job_state'', JStr ''Q''),
                  (''Resource_List'', JObj [(''mem'', JStr ''16gb''), (''ncpus'', JInt 4),
                                            (''walltime'', JStr ''24:00:00'')])])])]"
  by code_simp

text \<open>
  Claim C9, amended. Whatever the criteria, and whether the call returns or raises,
  \<^verbatim>\<open>filter_json\<close> leaves the job mapping with the same job ids in the same order, and
  each record either as it was or with the same keys in the same order, every value
  as it was except that of \<^verbatim>\<open>Job_Name\<close>, which may have changed from an integer
  to the decimal string of that integer. Nothing else in \<^verbatim>\<open>json_data\<close> changes.
\<close>

theorem filter_json_input:
  assumes "getitem json_data ''Jobs'' = Inr (JObj jobs)"
  shows "\<exists>jobs'. getitem (fst (filter_json json_data user queue state name)) ''Jobs'' =
                   Inr (JObj jobs') \<and>
                 list_all2 (\<lambda>a b. fst b = fst a \<and> name_fixed (snd a) (snd b)) jobs jobs' \<and>
                 (\<forall>k. k \<noteq> ''Jobs'' \<longrightarrow>
                    getitem (fst (filter_json json_data user queue state name)) k =
                    getitem json_data k)"
proof -
  obtain jobs' r where l: "filter_loop user queue state name jobs ([], init_spacing user queue) = (jobs', r)"
    by (cases "filter_loop user queue state name jobs ([], init_spacing user queue)")
  from filter_json_unfold[OF assms, of user queue state name] filter_loop_input[OF l] l
  show ?thesis by auto
qed

theorem filter_json_input_witness:
  "getitem (JObj [(''Jobs'', JObj [(''7.pbs02'', JObj [(''Job_Name'', JInt 42)]),
                                   (''8.pbs02'', JObj [(''Job_Name'', JStr ''sim'')])])]) ''Jobs'' =
     Inr (JObj [(''7.pbs02'', JObj [(''Job_Name'', JInt 42)]),
                (''8.pbs02'', JObj [(''Job_Name'', JStr ''sim'')])]) \<and>
   (\<exists>jobs'. getitem (fst (filter_json
        (JObj [(''Jobs'', JObj [(''7.pbs02'', JObj [(''Job_Name'', JInt 42)]),
                                (''8.pbs02'', JObj [(''Job_Name'', JStr ''sim'')])])])
        ''alice'' '''' '''' '''')) ''Jobs'' = Inr (JObj jobs') \<and>
      list_all2 (\<lambda>a b. fst b = fst a \<and> name_fixed (snd a) (snd b))
        [(''7.pbs02'', JObj [(''Job_Name'', JInt 42)]),
         (''8.pbs02'', JObj [(''Job_Name'', JStr ''sim'')])] jobs')"
proof -
  let ?jobs = "[(''7.pbs02'', JObj [(''Job_Name'', JInt 42)]),
                (''8.pbs02'', JObj [(''Job_Name'', JStr ''sim'')])]"
  have g: "getitem (JObj [(''Jobs'', JObj ?jobs)]) ''Jobs'' = Inr (JObj ?jobs)"
    by simp
  from filter_json_input[OF g, of "''alice''" "''''" "''''" "''''"] g show ?thesis by blast
qed

subsection \<open>The width table during the scan\<close>

lemma spacing_le_refl [simp]: "spacing_le a a"
  by (simp add: spacing_le_def)

lemma spacing_le_trans: "spacing_le a b \<Longrightarrow> spacing_le b c \<Longrightarrow> spacing_le a c"
  by (auto simp: spacing_le_def)

lemma labels_fit_init: "labels_fit (init_spacing user queue)"
  by (simp add: labels_fit_def init_spacing_def le_max_iff_disj numeral_eq_Suc)

lemma labels_fit_mono: "labels_fit a \<Longrightarrow> spacing_le a b \<Longrightarrow> labels_fit b"
  by (auto simp: labels_fit_def spacing_le_def)

lemma widen_mono: "widen job sp = Inr sp' \<Longrightarrow> spacing_le sp sp'"
  by (auto simp: widen_def bnd_eq_Inr_iff Let_def spacing_le_def)

lemma scan_job_cases:
  assumes "scan_job user queue state name jobid job (f, sp) = Inr (f', sp')"
  shows "(matches user queue state name job = Inr False \<and> f' = f \<and> sp' = sp) \<or>
         (matches user queue state name job = Inr True \<and> widen job sp = Inr sp' \<and>
          f' = dict_set jobid job f)"
proof (cases "matches user queue state name job")
  case (Inl e)
  with assms show ?thesis by (cases e) (simp_all add: scan_job_def)
next
  case (Inr b)
  show ?thesis
  proof (cases b)
    case True
    show ?thesis
    proof (cases "widen job sp")
      case (Inl e)
      with assms Inr True show ?thesis by (cases e) (simp_all add: scan_job_def)
    next
      case Inr2: (Inr sp2)
      with assms Inr True show ?thesis by (simp add: scan_job_def)
    qed
  next
    case False
    with assms Inr show ?thesis by (simp add: scan_job_def)
  qed
qed

lemma scan_job_mono:
  "scan_job user queue state name jobid job (f, sp) = Inr (f', sp') \<Longrightarrow> spacing_le sp sp'"
  by (auto dest!: scan_job_cases widen_mono)

lemma filter_loop_mono:
  "filter_loop user queue state name jobs (f0, sp0) = (jobs', Inr (f, sp)) \<Longrightarrow> spacing_le sp0 sp"
proof (induction jobs arbitrary: f0 sp0 jobs')
  case Nil
  then show ?case by simp
next
  case (Cons p ps)
  obtain jobid job where p: "p = (jobid, job)" by (cases p)
  from Cons.prems p obtain job1 f1 sp1 ps1 where
    "scan_job user queue state name jobid job1 (f0, sp0) = Inr (f1, sp1)"
    "filter_loop user queue state name ps (f1, sp1) = (ps1, Inr (f, sp))"
    by (auto split: sum.splits prod.splits)
  with Cons.IH show ?case by (blast intro: spacing_le_trans scan_job_mono)
qed

lemma filter_loop_append:
  "filter_loop user queue state name (xs @ ys) acc =
     (case filter_loop user queue state name xs acc of
        (xs', Inl e) \<Rightarrow> (xs' @ ys, Inl e)
      | (xs', Inr acc') \<Rightarrow>
          (case filter_loop user queue state name ys acc' of (ys', r) \<Rightarrow> (xs' @ ys', r)))"
proof (induction xs arbitrary: acc)
  case Nil
  then show ?case by (simp split: prod.splits)
next
  case (Cons p ps)
  obtain jobid job where p: "p = (jobid, job)" by (cases p)
  show ?case
    by (simp add: p Cons.IH split: sum.splits prod.splits)
qed

lemma filter_loop_split:
  assumes "filter_loop user queue state name (xs @ ys) (f0, sp0) = (jobs', Inr (f, sp))"
  shows "\<exists>xs' fm spm. filter_loop user queue state name xs (f0, sp0) = (xs', Inr (fm, spm)) \<and>
                      spacing_le sp0 spm \<and> spacing_le spm sp"
proof -
  obtain xs' r where x: "filter_loop user queue state name xs (f0, sp0) = (xs', r)"
    by (cases "filter_loop user queue state name xs (f0, sp0)")
  from assms x obtain fm spm where r: "r = Inr (fm, spm)"
    by (cases r) (auto simp: filter_loop_append)
  from assms x r obtain ys' where y: "filter_loop user queue state name ys (fm, spm) = (ys', Inr (f, sp))"
    by (auto simp: filter_loop_append split: prod.splits)
  from x r y show ?thesis by (blast intro: filter_loop_mono)
qed

lemma filter_json_returns:
  assumes "getitem json_data ''Jobs'' = Inr (JObj jobs)"
    and "snd (filter_json json_data user queue state name) = Inr (filtered, sp)"
  shows "\<exists>jobs'. filter_loop user queue state name jobs ([], init_spacing user queue) =
                   (jobs', Inr (filtered, sp))"
  using assms filter_json_unfold[of json_data jobs user queue state name]
  by (cases "filter_loop user queue state name jobs ([], init_spacing user queue)") auto

lemma filter_json_widths:
  assumes "getitem json_data ''Jobs'' = Inr (JObj jobs)"
    and "snd (filter_json json_data user queue state name) = Inr (filtered, sp)"
  shows "spacing_le (init_spacing user queue) sp \<and> labels_fit sp"
proof -
  from filter_json_returns[OF assms] obtain jobs' where
    "filter_loop user queue state name jobs ([], init_spacing user queue) = (jobs', Inr (filtered, sp))" ..
  then have "spacing_le (init_spacing user queue) sp" by (rule filter_loop_mono)
  then show ?thesis using labels_fit_init labels_fit_mono by blast
qed

text \<open>
  Claim C5. The widths for \<^verbatim>\<open>user\<close> and \<^verbatim>\<open>queue\<close> start at the maximum of 7 and the
  length of the filter string; no step of the scan lowers a width; so at every point
  of a scan that runs to its end (after the jobs \<open>xs\<close>, before the jobs \<open>ys\<close>) the table
  lies between the table before and the final one; and the table that \<^verbatim>\<open>filter_json\<close>
  returns has every column at least as wide as its header label.
\<close>

theorem spacing_monotone:
  "sp_user (init_spacing user queue) = max 7 (length user) \<and>
   sp_queue (init_spacing user queue) = max 7 (length queue) \<and>
   (scan_job user queue state name jobid job (f0, sp0) = Inr (f1, sp1) \<longrightarrow> spacing_le sp0 sp1) \<and>
   (filter_loop user queue state name (xs @ ys) (f0, sp0) = (jobs', Inr (f, sp)) \<longrightarrow>
      (\<exists>xs' fm spm. filter_loop user queue state name xs (f0, sp0) = (xs', Inr (fm, spm)) \<and>
                    spacing_le sp0 spm \<and> spacing_le spm sp)) \<and>
   (getitem json_data ''Jobs'' = Inr (JObj jobs) \<and>
    snd (filter_json json_data user queue state name) = Inr (filtered, sp) \<longrightarrow>
      spacing_le (init_spacing user queue) sp \<and> labels_fit sp)"
proof -
  have seed: "sp_user (init_spacing user queue) = max 7 (length user)"
    "sp_queue (init_spacing user queue) = max 7 (length queue)"
    by (simp_all add: init_spacing_def)
  have step: "scan_job user queue state name jobid job (f0, sp0) = Inr (f1, sp1) \<longrightarrow> spacing_le sp0 sp1"
    using scan_job_mono by blast
  have scan: "filter_loop user queue state name (xs @ ys) (f0, sp0) = (jobs', Inr (f, sp)) \<longrightarrow>
      (\<exists>xs' fm spm. filter_loop user queue state name xs (f0, sp0) = (xs', Inr (fm, spm)) \<and>
                    spacing_le sp0 spm \<and> spacing_le spm sp)"
    using filter_loop_split by blast
  have final: "getitem json_data ''Jobs'' = Inr (JObj jobs) \<and>
    snd (filter_json json_data user queue state name) = Inr (filtered, sp) \<longrightarrow>
      spacing_le (init_spacing user queue) sp \<and> labels_fit sp"
    using filter_json_widths by blast
  from seed step scan final show ?thesis by blast
qed

lemma example_scan_running:
  "scan_job '''' '''' '''' '''' ''1.pbs02'' example_running ([], init_spacing '''' '''') =
     Inr ([(''1.pbs02'', example_running)], example_widths)"
  by code_simp

lemma example_filter_loop:
  "filter_loop '''' '''' '''' ''''
     ([(''1.pbs02'', example_running)] @ [(''2.pbs02'', example_queued)])
     ([], init_spacing '''' '''') =
   ([(''1.pbs02'', example_running), (''2.pbs02'', example_queued_named)],
    Inr ([(''1.pbs02'', example_running), (''2.pbs02'', example_queued_named)], example_widths))"
  by code_simp

lemma example_jobs:
  "getitem example_json ''Jobs'' =
     Inr (JObj [(''1.pbs02'', example_running), (''2.pbs02'', example_queued)])"
  by (simp add: example_json_def)

lemma example_filter_json:
  "snd (filter_json example_json '''' '''' '''' '''') =
     Inr ([(''1.pbs02'', example_running), (''2.pbs02'', example_queued_named)], example_widths)"
  using filter_json_unfold[OF example_jobs, of "''''" "''''" "''''" "''''"] example_filter_loop
  by simp

theorem spacing_monotone_witness:
  "scan_job '''' '''' '''' '''' ''1.pbs02'' example_running ([], init_spacing '''' '''') =
     Inr ([(''1.pbs02'', example_running)], example_widths) \<and>
   spacing_le (init_spacing '''' '''') example_widths \<and>
   filter_loop '''' '''' '''' ''''
     ([(''1.pbs02'', example_running)] @ [(''2.pbs02'', example_queued)])
     ([], init_spacing '''' '''') =
   ([(''1.pbs02'', example_running), (''2.pbs02'', example_queued_named)],
    Inr ([(''1.pbs02'', example_running), (''2.pbs02'', example_queued_named)], example_widths)) \<and>
   (\<exists>xs' fm spm.
      filter_loop '''' '''' '''' '''' [(''1.pbs02'', example_running)] ([], init_spacing '''' '''') =
        (xs', Inr (fm, spm)) \<and>
      spacing_le (init_spacing '''' '''') spm \<and> spacing_le spm example_widths) \<and>
   getitem example_json ''Jobs'' =
     Inr (JObj [(''1.pbs02'', example_running), (''2.pbs02'', example_queued)]) \<and>
   snd (filter_json example_json '''' '''' '''' '''') =
     Inr ([(''1.pbs02'', example_running), (''2.pbs02'', example_queued_named)], example_widths) \<and>
   labels_fit example_widths"
  using spacing_monotone[where user = "''''" and queue = "''''" and state = "''''" and name = "''''"
      and jobid = "''1.pbs02''" and job = example_running and ?f0.0 = "[]"
      and ?sp0.0 = "init_spacing '''' ''''" and ?f1.0 = "[(''1.pbs02'', example_running)]"
      and ?sp1.0 = example_widths
      and xs = "[(''1.pbs02'', example_running)]" and ys = "[(''2.pbs02'', example_queued)]"
      and jobs' = "[(''1.pbs02'', example_running), (''2.pbs02'', example_queued_named)]"
      and f = "[(''1.pbs02'', example_running), (''2.pbs02'', example_queued_named)]"
      and sp = example_widths and json_data = example_json
      and jobs = "[(''1.pbs02'', example_running), (''2.pbs02'', example_queued)]"
      and filtered = "[(''1.pbs02'', example_running), (''2.pbs02'', example_queued_named)]"]
    example_scan_running example_filter_loop example_jobs example_filter_json
  by blast

subsection \<open>Empty criteria\<close>

lemma upper_empty [simp]: "upper [] = []"
  by (simp add: upper_def)

lemma py_in_empty: "py_in [] x = Inr c \<Longrightarrow> \<not> is_object x \<Longrightarrow> c"
  by (cases x) (auto simp: py_in_def is_object_def)

lemma matches_empty:
  assumes "plain_fields job" and "matches [] [] [] [] job = Inr b"
  shows "b"
proof -
  from assms(2)[unfolded matches_def upper_empty]
  obtain owner b1 where o: "getitem job ''Job_Owner'' = Inr owner" "py_in [] owner = Inr b1"
    and r1: "(if \<not> b1 then Inr False else
              bnd (getitem job ''queue'') (\<lambda>q.
              bnd (py_in [] q) (\<lambda>b2.
              if \<not> b2 then Inr False else
              bnd (getitem job ''job_state'') (\<lambda>st.
              bnd (py_in [] st) (\<lambda>b3.
              if \<not> b3 then Inr False else
              bnd (getitem job ''Job_Name'') (\<lambda>nm. py_in [] nm)))))) = Inr b"
    by (auto simp: bnd_eq_Inr_iff)
  from o assms(1) have b1: "b1" by (auto simp: plain_fields_def dest: py_in_empty)
  from r1 b1 obtain q b2 where q: "getitem job ''queue'' = Inr q" "py_in [] q = Inr b2"
    and r2: "(if \<not> b2 then Inr False else
              bnd (getitem job ''job_state'') (\<lambda>st.
              bnd (py_in [] st) (\<lambda>b3.
              if \<not> b3 then Inr False else
              bnd (getitem job ''Job_Name'') (\<lambda>nm. py_in [] nm)))) = Inr b"
    by (auto simp: bnd_eq_Inr_iff)
  from q assms(1) have b2: "b2" by (auto simp: plain_fields_def dest: py_in_empty)
  from r2 b2 obtain st b3 where st: "getitem job ''job_state'' = Inr st" "py_in [] st = Inr b3"
    and r3: "(if \<not> b3 then Inr False else
              bnd (getitem job ''Job_Name'') (\<lambda>nm. py_in [] nm)) = Inr b"
    by (auto simp: bnd_eq_Inr_iff)
  from st assms(1) have b3: "b3" by (auto simp: plain_fields_def dest: py_in_empty)
  from r3 b3 obtain nm where nm: "getitem job ''Job_Name'' = Inr nm" "py_in [] nm = Inr b"
    by (auto simp: bnd_eq_Inr_iff)
  from nm assms(1) show ?thesis by (auto simp: plain_fields_def dest: py_in_empty)
qed

lemma plain_fields_fix_name:
  assumes "plain_fields job" and "fix_name job = Inr job'"
  shows "plain_fields job'"
proof -
  from fix_name_cases[OF assms(2)] show ?thesis
  proof
    assume "job' = job"
    with assms(1) show ?thesis by simp
  next
    assume "\<exists>kvs i. job = JObj kvs \<and> map_of kvs ''Job_Name'' = Some (JInt i) \<and>
                    job' = JObj (dict_set ''Job_Name'' (JStr (str_int i)) kvs)"
    then obtain kvs i where "job = JObj kvs" "job' = JObj (dict_set ''Job_Name'' (JStr (str_int i)) kvs)"
      by blast
    with assms(1) show ?thesis
      by (simp add: plain_fields_def getitem_def is_object_def)
  qed
qed

lemma filter_loop_all:
  assumes "filter_loop [] [] [] [] jobs (f0, sp0) = (jobs', Inr (f, sp))"
    and "distinct (map fst jobs)"
    and "fst ` set jobs \<inter> fst ` set f0 = {}"
    and "list_all (\<lambda>p. plain_fields (snd p)) jobs"
  shows "f = f0 @ jobs' \<and> list_all2 (\<lambda>a b. fst b = fst a \<and> fix_name (snd a) = Inr (snd b)) jobs jobs'"
  using assms
proof (induction jobs arbitrary: f0 sp0 jobs')
  case Nil
  then show ?case by simp
next
  case (Cons p ps)
  obtain jobid job where p: "p = (jobid, job)" by (cases p)
  from Cons.prems(1) p obtain job1 f1 sp1 ps1 where
    fx: "fix_name job = Inr job1"
    and sc: "scan_job [] [] [] [] jobid job1 (f0, sp0) = Inr (f1, sp1)"
    and lp: "filter_loop [] [] [] [] ps (f1, sp1) = (ps1, Inr (f, sp))"
    and j': "jobs' = (jobid, job1) # ps1"
    by (auto split: sum.splits prod.splits)
  from Cons.prems(4) p fx have "plain_fields job1" by (auto intro: plain_fields_fix_name)
  with scan_job_cases[OF sc] have "f1 = dict_set jobid job1 f0"
    by (auto dest: matches_empty)
  moreover from Cons.prems(3) p have "jobid \<notin> fst ` set f0" by auto
  ultimately have f1: "f1 = f0 @ [(jobid, job1)]" by (simp add: dict_set_fresh)
  from Cons.prems(2,3) p have d: "distinct (map fst ps)" "fst ` set ps \<inter> fst ` set f1 = {}"
    by (auto simp: f1)
  from Cons.prems(4) have "list_all (\<lambda>p. plain_fields (snd p)) ps" by simp
  from Cons.IH[OF lp d this] show ?case by (simp add: f1 j' p fx)
qed

text \<open>
  Claim C1, as stated, fails twice. A record on which a conversion raises (here one
  that has no \<^verbatim>\<open>Resource_List\<close>) ends the call with the exception, so nothing is
  returned; and a record whose name is an integer is returned with the name as a
  string, which is not the record that was passed in.
\<close>

theorem filter_json_empty_criteria_counterexample:
  "snd (filter_json
         (JObj [(''Jobs'', JObj [(''9.pbs02'',
            JObj [(''Job_Name'', JStr ''sim''), (''Job_Owner'', JStr ''carol@node3''),
                  (''queue'', JStr ''batch''), (''job_state'', JStr ''Q'')])])])
         '''' '''' '''' '''') = Inl (KeyError (JStr ''Resource_List'')) \<and>
   snd (filter_json example_json '''' '''' '''' '''') =
     Inr ([(''1.pbs02'', example_running), (''2.pbs02'', example_queued_named)], example_widths) \<and>
   getitem example_json ''Jobs'' =
     Inr (JObj [(''1.pbs02'', example_running), (''2.pbs02'', example_queued)]) \<and>
   example_queued_named \<noteq> example_queued"
proof -
  have "snd (filter_json
         (JObj [(''Jobs'', JObj [(''9.pbs02'',
            JObj [(''Job_Name'', JStr ''sim''), (''Job_Owner'', JStr ''carol@node3''),
                  (''queue'', JStr ''batch''), (''job_state'', JStr ''Q'')])])])
         '''' '''' '''' '''') = Inl (KeyError (JStr ''Resource_List''))"
    by code_simp
  moreover have "example_queued_named \<noteq> example_queued"
    by (simp add: example_queued_named_def example_queued_def)
  ultimately show ?thesis using example_filter_json example_jobs by simp
qed

text \<open>
  Claim C1, amended. Let all four criteria be the empty string, let the job ids be
  distinct (they are the keys of a mapping), and let none of the four compared fields
  of any record be a nested object. Whenever \<^verbatim>\<open>filter_json\<close> returns, the mapping it
  returns is the job mapping of the input as the call leaves it: the job ids of the
  input in the same order, each with its input record, in which lines 138 and 139 have
  at most replaced an integer \<^verbatim>\<open>Job_Name\<close> by its string.
\<close>

theorem filter_json_empty_criteria:
  assumes "getitem json_data ''Jobs'' = Inr (JObj jobs)"
    and "distinct (map fst jobs)"
    and "list_all (\<lambda>p. plain_fields (snd p)) jobs"
    and "snd (filter_json json_data '''' '''' '''' '''') = Inr (filtered, sp)"
  shows "getitem (fst (filter_json json_data '''' '''' '''' '''')) ''Jobs'' = Inr (JObj filtered) \<and>
         map fst filtered = map fst jobs \<and>
         list_all2 (\<lambda>a b. fst b = fst a \<and> fix_name (snd a) = Inr (snd b) \<and>
                          name_fixed (snd a) (snd b)) jobs filtered"
proof -
  from filter_json_returns[OF assms(1,4)] obtain jobs' where
    l: "filter_loop [] [] [] [] jobs ([], init_spacing [] []) = (jobs', Inr (filtered, sp))" ..
  from filter_loop_all[OF l assms(2) _ assms(3)]
  have f: "filtered = jobs'"
    and r: "list_all2 (\<lambda>a b. fst b = fst a \<and> fix_name (snd a) = Inr (snd b)) jobs jobs'"
    by simp_all
  from r have "map fst jobs' = map fst jobs"
    by (induction jobs jobs' rule: list_all2_induct) simp_all
  moreover from r have "list_all2 (\<lambda>a b. fst b = fst a \<and> fix_name (snd a) = Inr (snd b) \<and>
                          name_fixed (snd a) (snd b)) jobs jobs'"
    by (rule list_all2_mono) (auto intro: fix_name_name_fixed)
  moreover have "getitem (fst (filter_json json_data '''' '''' '''' '''')) ''Jobs'' = Inr (JObj jobs')"
    using filter_json_unfold[OF assms(1), of "''''" "''''" "''''" "''''"] l by simp
  ultimately show ?thesis by (simp add: f)
qed

theorem filter_json_empty_criteria_witness:
  "getitem example_json ''Jobs'' =
     Inr (JObj [(''1.pbs02'', example_running), (''2.pbs02'', example_queued)]) \<and>
   distinct (map fst [(''1.pbs02'', example_running), (''2.pbs02'', example_queued)]) \<and>
   list_all (\<lambda>p. plain_fields (snd p)) [(''1.pbs02'', example_running), (''2.pbs02'', example_queued)] \<and>
   snd (filter_json example_json '''' '''' '''' '''') =
     Inr ([(''1.pbs02'', example_running), (''2.pbs02'', example_queued_named)], example_widths) \<and>
   getitem (fst (filter_json example_json '''' '''' '''' '''')) ''Jobs'' =
     Inr (JObj [(''1.pbs02'', example_running), (''2.pbs02'', example_queued_named)]) \<and>
   map fst [(''1.pbs02'', example_running), (''2.pbs02'', example_queued_named)] =
     map fst [(''1.pbs02'', example_running), (''2.pbs02'', example_queued)]"
proof -
  have d: "distinct (map fst [(''1.pbs02'', example_running), (''2.pbs02'', example_queued)])"
    by simp
  have p: "list_all (\<lambda>p. plain_fields (snd p))
             [(''1.pbs02'', example_running), (''2.pbs02'', example_queued)]"
    by code_simp
  from filter_json_empty_criteria[OF example_jobs d p example_filter_json]
    example_jobs d p example_filter_json
  show ?thesis by simp
qed

subsection \<open>Which errors end the scan\<close>

text \<open>
  \<open>no_exit m\<close>: the computation \<open>m\<close> does not leave through \<^verbatim>\<open>sys.exit\<close>. Only the
  handler of \<^verbatim>\<open>filter_json\<close> does; the conditions and the converters do not.
\<close>

lemma no_exit_Inr [simp]: "Inr x \<noteq> (Inl (SystemExit j) :: pyerr + 'a)"
  by simp

lemma bnd_no_exit:
  assumes "m \<noteq> Inl (SystemExit j)" and "\<And>x. f x \<noteq> Inl (SystemExit j)"
  shows "bnd m f \<noteq> Inl (SystemExit j)"
  using assms by (cases m) simp_all

lemma bnd_eq_Inl_iff: "bnd m f = Inl e \<longleftrightarrow> m = Inl e \<or> (\<exists>x. m = Inr x \<and> f x = Inl e)"
  by (cases m) simp_all

lemma except_no_exit:
  assumes "m \<noteq> Inl (SystemExit j)" and "h \<noteq> Inl (SystemExit j)"
  shows "except_KeyError m h \<noteq> Inl (SystemExit j)"
  using assms by (auto simp: except_KeyError_def split: sum.splits pyerr.splits)

lemma getitem_no_exit [simp]: "getitem x k \<noteq> Inl (SystemExit j)"
  by (auto simp: getitem_def split: jval.splits option.splits)

lemma setitem_no_exit [simp]: "setitem x k v \<noteq> Inl (SystemExit j)"
  by (auto simp: setitem_def split: jval.splits)

lemma py_in_no_exit [simp]: "py_in s x \<noteq> Inl (SystemExit j)"
  by (auto simp: py_in_def split: jval.splits)

lemma py_len_no_exit [simp]: "py_len x \<noteq> Inl (SystemExit j)"
  by (auto simp: py_len_def split: jval.splits)

lemma py_split_no_exit [simp]: "py_split x c \<noteq> Inl (SystemExit j)"
  by (auto simp: py_split_def split: jval.splits)

lemma of_opt_no_exit [simp]: "e \<noteq> SystemExit j \<Longrightarrow> of_opt e m \<noteq> Inl (SystemExit j)"
  by (cases m) simp_all

lemma int_at_no_exit [simp]: "int_at ps i \<noteq> Inl (SystemExit j)"
  by (simp add: int_at_def)

lemma float_of_int_no_exit [simp]: "float_of_int i \<noteq> Inl (SystemExit j)"
  by (simp add: float_of_int_def split: option.splits)

lemma float_truediv_no_exit [simp]: "float_truediv x y \<noteq> Inl (SystemExit j)"
  by (simp add: float_truediv_def)

lemma int_div_float_no_exit [simp]: "int_div_float i y \<noteq> Inl (SystemExit j)"
  by (simp add: int_div_float_def bnd_no_exit)

lemma float_mul_int_no_exit [simp]: "float_mul_int x i \<noteq> Inl (SystemExit j)"
  by (simp add: float_mul_int_def bnd_no_exit)

lemma py_times_100_no_exit [simp]: "py_times_100 x \<noteq> Inl (SystemExit j)"
  by (auto simp: py_times_100_def split: jval.splits)

lemma py_truediv_no_exit [simp]: "py_truediv x y \<noteq> Inl (SystemExit j)"
  by (auto simp: py_truediv_def int_truediv_def split: jval.splits option.splits)

lemma convert_walltime_no_exit [simp]: "convert_walltime job rl \<noteq> Inl (SystemExit j)"
  unfolding convert_walltime_def Let_def
  by (intro bnd_no_exit except_no_exit) simp_all

lemma convert_cpu_efficiency_no_exit [simp]: "convert_cpu_efficiency job rl \<noteq> Inl (SystemExit j)"
  unfolding convert_cpu_efficiency_def
  by (intro bnd_no_exit except_no_exit) simp_all

lemma used_mem_kb_no_exit [simp]: "used_mem_kb job \<noteq> Inl (SystemExit j)"
  unfolding used_mem_kb_def
  by (intro bnd_no_exit except_no_exit) (simp_all split: jval.splits)

lemma convert_mem_efficiency_no_exit [simp]: "convert_mem_efficiency job rl \<noteq> Inl (SystemExit j)"
proof -
  have p: "bnd (int_div_float used t) (\<lambda>q. bnd (float_mul_int q 100) (\<lambda>p. Inr (format_f0 3 p @ ''%'')))
           \<noteq> Inl (SystemExit j)" for used t
    by (intro bnd_no_exit) simp_all
  show ?thesis
    unfolding convert_mem_efficiency_def Let_def
    by (auto simp: bnd_eq_Inl_iff p split: jval.splits if_splits)
qed

lemma matches_no_exit [simp]: "matches user queue state name job \<noteq> Inl (SystemExit j)"
  unfolding matches_def
  by (auto simp: bnd_eq_Inl_iff split: if_splits)

lemma widen_no_exit [simp]: "widen job sp \<noteq> Inl (SystemExit j)"
  unfolding widen_def Let_def
  by (intro bnd_no_exit) simp_all

lemma fix_name_no_exit [simp]: "fix_name job \<noteq> Inl (SystemExit j)"
  unfolding fix_name_def
  by (intro bnd_no_exit) (simp_all split: jval.splits)

text \<open>The handler shows the record at hand, and only after a \<^verbatim>\<open>TypeError\<close>.\<close>

lemma scan_job_exit:
  assumes "scan_job user queue state name jobid job acc = Inl (SystemExit j)"
  shows "j = job \<and>
         (matches user queue state name job = Inl TypeError \<or>
          matches user queue state name job = Inr True \<and> widen job (snd acc) = Inl TypeError)"
proof (cases "matches user queue state name job")
  case (Inl e)
  with assms show ?thesis
    using matches_no_exit[of user queue state name job j]
    by (cases e) (simp_all add: scan_job_def)
next
  case (Inr b)
  show ?thesis
  proof (cases b)
    case True
    show ?thesis
    proof (cases "widen job (snd acc)")
      case (Inl e)
      with assms Inr True show ?thesis
        using widen_no_exit[of job "snd acc" j]
        by (cases e) (simp_all add: scan_job_def)
    next
      case Inr2: (Inr sp2)
      with assms Inr True show ?thesis by (simp add: scan_job_def)
    qed
  next
    case False
    with assms Inr show ?thesis by (simp add: scan_job_def)
  qed
qed

lemma filter_loop_exit:
  "filter_loop user queue state name jobs acc = (jobs', Inl (SystemExit j)) \<Longrightarrow>
   \<exists>p \<in> set jobs. fix_name (snd p) = Inr j"
proof (induction jobs arbitrary: acc jobs')
  case Nil
  then show ?case by simp
next
  case (Cons p ps)
  obtain jobid job where p: "p = (jobid, job)" by (cases p)
  show ?case
  proof (cases "fix_name job")
    case (Inl e)
    with Cons.prems p fix_name_no_exit[of job j] show ?thesis by auto
  next
    case (Inr job1)
    show ?thesis
    proof (cases "scan_job user queue state name jobid job1 acc")
      case (Inl e)
      with Cons.prems p Inr have "scan_job user queue state name jobid job1 acc = Inl (SystemExit j)"
        by simp
      from scan_job_exit[OF this] Inr p show ?thesis by simp
    next
      case Inr2: (Inr acc1)
      obtain ps1 r1 where l: "filter_loop user queue state name ps acc1 = (ps1, r1)"
        by (cases "filter_loop user queue state name ps acc1")
      with Cons.prems p Inr Inr2 have "r1 = Inl (SystemExit j)" by simp
      with Cons.IH[of acc1 ps1] l show ?thesis by auto
    qed
  qed
qed

lemma filter_loop_exit_cause:
  "filter_loop user queue state name jobs acc = (jobs', Inl (SystemExit j)) \<Longrightarrow>
   matches user queue state name j = Inl TypeError \<or>
   matches user queue state name j = Inr True \<and> (\<exists>sp0. widen j sp0 = Inl TypeError)"
proof (induction jobs arbitrary: acc jobs')
  case Nil
  then show ?case by simp
next
  case (Cons p ps)
  obtain jobid job where p: "p = (jobid, job)" by (cases p)
  show ?case
  proof (cases "fix_name job")
    case (Inl e)
    with Cons.prems p fix_name_no_exit[of job j] show ?thesis by auto
  next
    case (Inr job1)
    show ?thesis
    proof (cases "scan_job user queue state name jobid job1 acc")
      case (Inl e)
      with Cons.prems p Inr have "scan_job user queue state name jobid job1 acc = Inl (SystemExit j)"
        by simp
      from scan_job_exit[OF this] show ?thesis by blast
    next
      case Inr2: (Inr acc1)
      obtain ps1 r1 where l: "filter_loop user queue state name ps acc1 = (ps1, r1)"
        by (cases "filter_loop user queue state name ps acc1")
      with Cons.prems p Inr Inr2 have "r1 = Inl (SystemExit j)" by simp
      with Cons.IH[of acc1 ps1] l show ?thesis by auto
    qed
  qed
qed

lemma retained_complete:
  assumes "matches user queue state name job = Inr True" and "widen job sp = Inr sp'"
  shows "complete_record job"
proof -
  from assms(1) have "has_field job ''Job_Owner'' \<and> has_field job ''queue'' \<and>
        has_field job ''job_state'' \<and> has_field job ''Job_Name''"
    by (auto simp: matches_def bnd_eq_Inr_iff has_field_def split: if_splits)
  moreover from assms(2) obtain rl where "getitem job ''Resource_List'' = Inr rl"
    "has_field rl ''mem''" "has_field rl ''ncpus''"
    by (auto simp: widen_def bnd_eq_Inr_iff has_field_def Let_def)
  moreover from assms(2) obtain rl' w where "getitem job ''Resource_List'' = Inr rl'"
    "convert_walltime job rl' = Inr w"
    by (auto simp: widen_def bnd_eq_Inr_iff Let_def)
  then have "getitem job ''Resource_List'' = Inr rl'" "has_field rl' ''walltime''"
    by (auto simp: convert_walltime_def bnd_eq_Inr_iff has_field_def)
  ultimately show ?thesis by (auto simp: complete_record_def)
qed

lemma filter_loop_complete:
  assumes "filter_loop user queue state name jobs (f0, sp0) = (jobs', Inr (f, sp))"
    and "list_all (\<lambda>p. complete_record (snd p)) f0"
  shows "list_all (\<lambda>p. complete_record (snd p)) f \<and>
         list_all (\<lambda>p. has_field (snd p) ''Job_Name'' \<and> has_field (snd p) ''Job_Owner'') jobs"
  using assms
proof (induction jobs arbitrary: f0 sp0 jobs')
  case Nil
  then show ?case by simp
next
  case (Cons p ps)
  obtain jobid job where p: "p = (jobid, job)" by (cases p)
  from Cons.prems(1) p obtain job1 f1 sp1 ps1 where
    fx: "fix_name job = Inr job1"
    and sc: "scan_job user queue state name jobid job1 (f0, sp0) = Inr (f1, sp1)"
    and lp: "filter_loop user queue state name ps (f1, sp1) = (ps1, Inr (f, sp))"
    by (auto split: sum.splits prod.splits)
  from fx have n: "has_field job ''Job_Name''"
    by (auto simp: fix_name_def bnd_eq_Inr_iff has_field_def)
  from scan_job_cases[OF sc] obtain b where "matches user queue state name job1 = Inr b" by auto
  then have "has_field job1 ''Job_Owner''"
    by (auto simp: matches_def bnd_eq_Inr_iff has_field_def)
  with fix_name_getitem_other[OF fx, of "''Job_Owner''"] have o: "has_field job ''Job_Owner''"
    by (simp add: has_field_def)
  from scan_job_cases[OF sc] have "list_all (\<lambda>p. complete_record (snd p)) f1"
  proof
    assume "matches user queue state name job1 = Inr False \<and> f1 = f0 \<and> sp1 = sp0"
    with Cons.prems(2) show ?thesis by simp
  next
    assume a: "matches user queue state name job1 = Inr True \<and> widen job1 sp0 = Inr sp1 \<and>
               f1 = dict_set jobid job1 f0"
    then have "complete_record job1" by (blast intro: retained_complete)
    with a Cons.prems(2) set_dict_set[of jobid job1 f0] show ?thesis
      by (auto simp: list_all_iff)
  qed
  from Cons.IH[OF lp this] n o p show ?case by simp
qed

lemma first_record_without_owner:
  assumes "has_field (JObj kvs) ''Job_Name''" and "\<not> has_field (JObj kvs) ''Job_Owner''"
  shows "snd (filter_loop user queue state name ((jobid, JObj kvs) # rest) acc) =
         Inl (KeyError (JStr ''Job_Owner''))"
proof -
  from assms(1) obtain nm where "getitem (JObj kvs) ''Job_Name'' = Inr nm"
    by (auto simp: has_field_def split: sum.splits)
  then obtain job1 where fx: "fix_name (JObj kvs) = Inr job1"
    by (cases nm) (simp_all add: fix_name_def setitem_def)
  from assms(2) have "getitem (JObj kvs) ''Job_Owner'' = Inl (KeyError (JStr ''Job_Owner''))"
    by (auto simp: has_field_def getitem_def split: option.splits)
  with fix_name_getitem_other[OF fx, of "''Job_Owner''"]
  have "getitem job1 ''Job_Owner'' = Inl (KeyError (JStr ''Job_Owner''))" by simp
  then have "matches user queue state name job1 = Inl (KeyError (JStr ''Job_Owner''))"
    by (simp add: matches_def)
  then have "scan_job user queue state name jobid job1 acc = Inl (KeyError (JStr ''Job_Owner''))"
    by (simp add: scan_job_def)
  with fx show ?thesis by simp
qed

text \<open>
  Claim C6, as stated, fails. A record that lacks a field is skipped without a word
  when an earlier operand of the condition is already false (the first input: the
  owner does not match, and the missing \<^verbatim>\<open>queue\<close> is never read). When the missing
  field is read, the \<^verbatim>\<open>KeyError\<close> is not the \<^verbatim>\<open>TypeError\<close> that the handler
  catches: the process ends with the exception, and the record is not printed (the
  second input).
\<close>

theorem filter_json_missing_field_counterexample:
  "snd (filter_json
         (JObj [(''Jobs'', JObj [(''3.pbs02'',
            JObj [(''Job_Name'', JStr ''sim''), (''Job_Owner'', JStr ''bob@node2'')])])])
         ''alice'' '''' '''' '''') = Inr ([], init_spacing ''alice'' '''') \<and>
   snd (filter_json
         (JObj [(''Jobs'', JObj [(''9.pbs02'',
            JObj [(''Job_Name'', JStr ''sim''), (''Job_Owner'', JStr ''carol@node3''),
                  (''queue'', JStr ''batch''), (''job_state'', JStr ''Q'')])])])
         ''carol'' '''' '''' '''') = Inl (KeyError (JStr ''Resource_List''))"
  by code_simp

text \<open>
  Claim C6, amended. \<^verbatim>\<open>filter_json\<close> prints a record and exits with status 1 only
  for a record of the input (as lines 138 and 139 leave it) on which a \<^verbatim>\<open>TypeError\<close>
  was raised, that is, for a field of the wrong type. A missing field is not handled:
  a first record that has a name but no \<^verbatim>\<open>Job_Owner\<close> ends the call with
  \<^verbatim>\<open>KeyError\<close>, and a call that returns has seen \<^verbatim>\<open>Job_Name\<close> and \<^verbatim>\<open>Job_Owner\<close>
  in every record. A record that lacks a later field may be skipped when an earlier
  test fails, but it is never retained: every record of the returned mapping has all
  the fields that the filter and the converters read.
\<close>

theorem filter_json_missing_field:
  assumes "getitem json_data ''Jobs'' = Inr (JObj jobs)"
  shows "(snd (filter_json json_data user queue state name) = Inl (SystemExit job) \<longrightarrow>
            (\<exists>p \<in> set jobs. fix_name (snd p) = Inr job) \<and>
            (matches user queue state name job = Inl TypeError \<or>
             matches user queue state name job = Inr True \<and>
             (\<exists>sp0. widen job sp0 = Inl TypeError))) \<and>
         (snd (filter_json json_data user queue state name) = Inr (filtered, sp) \<longrightarrow>
            list_all (\<lambda>p. complete_record (snd p)) filtered \<and>
            list_all (\<lambda>p. has_field (snd p) ''Job_Name'' \<and> has_field (snd p) ''Job_Owner'') jobs) \<and>
         (\<forall>jobid kvs rest.
            jobs = (jobid, JObj kvs) # rest \<and> has_field (JObj kvs) ''Job_Name'' \<and>
            \<not> has_field (JObj kvs) ''Job_Owner'' \<longrightarrow>
            snd (filter_json json_data user queue state name) = Inl (KeyError (JStr ''Job_Owner'')))"
proof -
  note u = filter_json_unfold[OF assms, of user queue state name, THEN conjunct1]
  have a: "snd (filter_json json_data user queue state name) = Inl (SystemExit job) \<longrightarrow>
            (\<exists>p \<in> set jobs. fix_name (snd p) = Inr job) \<and>
            (matches user queue state name job = Inl TypeError \<or>
             matches user queue state name job = Inr True \<and>
             (\<exists>sp0. widen job sp0 = Inl TypeError))"
  proof
    assume "snd (filter_json json_data user queue state name) = Inl (SystemExit job)"
    with u obtain jobs' where
      l: "filter_loop user queue state name jobs ([], init_spacing user queue) = (jobs', Inl (SystemExit job))"
      by (cases "filter_loop user queue state name jobs ([], init_spacing user queue)") auto
    from filter_loop_exit[OF l] filter_loop_exit_cause[OF l]
    show "(\<exists>p \<in> set jobs. fix_name (snd p) = Inr job) \<and>
            (matches user queue state name job = Inl TypeError \<or>
             matches user queue state name job = Inr True \<and>
             (\<exists>sp0. widen job sp0 = Inl TypeError))"
      by blast
  qed
  have b: "snd (filter_json json_data user queue state name) = Inr (filtered, sp) \<longrightarrow>
            list_all (\<lambda>p. complete_record (snd p)) filtered \<and>
            list_all (\<lambda>p. has_field (snd p) ''Job_Name'' \<and> has_field (snd p) ''Job_Owner'') jobs"
  proof
    assume "snd (filter_json json_data user queue state name) = Inr (filtered, sp)"
    from filter_json_returns[OF assms this] obtain jobs' where
      "filter_loop user queue state name jobs ([], init_spacing user queue) = (jobs', Inr (filtered, sp))" ..
    from filter_loop_complete[OF this]
    show "list_all (\<lambda>p. complete_record (snd p)) filtered \<and>
            list_all (\<lambda>p. has_field (snd p) ''Job_Name'' \<and> has_field (snd p) ''Job_Owner'') jobs"
      by simp
  qed
  have c: "\<forall>jobid kvs rest.
            jobs = (jobid, JObj kvs) # rest \<and> has_field (JObj kvs) ''Job_Name'' \<and>
            \<not> has_field (JObj kvs) ''Job_Owner'' \<longrightarrow>
            snd (filter_json json_data user queue state name) = Inl (KeyError (JStr ''Job_Owner''))"
    using u first_record_without_owner by metis
  from a b c show ?thesis by blast
qed

theorem filter_json_missing_field_witness:
  "getitem example_json ''Jobs'' =
     Inr (JObj [(''1.pbs02'', example_running), (''2.pbs02'', example_queued)]) \<and>
   snd (filter_json example_json '''' '''' '''' '''') =
     Inr ([(''1.pbs02'', example_running), (''2.pbs02'', example_queued_named)], example_widths) \<and>
   list_all (\<lambda>p. complete_record (snd p))
     [(''1.pbs02'', example_running), (''2.pbs02'', example_queued_named)] \<and>
   snd (filter_json
         (JObj [(''Jobs'', JObj [(''4.pbs02'',
            JObj [(''Job_Name'', JInt 7), (''Job_Owner'', JNull)])])])
         ''alice'' '''' '''' '''') =
     Inl (SystemExit (JObj [(''Job_Name'', JStr ''7''), (''Job_Owner'', JNull)])) \<and>
   (\<exists>p \<in> set [(''4.pbs02'', JObj [(''Job_Name'', JInt 7), (''Job_Owner'', JNull)])].
      fix_name (snd p) = Inr (JObj [(''Job_Name'', JStr ''7''), (''Job_Owner'', JNull)])) \<and>
   has_field (JObj [(''Job_Name'', JStr ''sim'')]) ''Job_Name'' \<and>
   \<not> has_field (JObj [(''Job_Name'', JStr ''sim'')]) ''Job_Owner'' \<and>
   snd (filter_json (JObj [(''Jobs'', JObj [(''5.pbs02'', JObj [(''Job_Name'', JStr ''sim'')])])])
         ''alice'' '''' '''' '''') = Inl (KeyError (JStr ''Job_Owner''))"
proof -
  let ?j4 = "JObj [(''Job_Name'', JInt 7), (''Job_Owner'', JNull)]"
  let ?j5 = "JObj [(''Job_Name'', JStr ''sim'')]"
  have g4: "getitem (JObj [(''Jobs'', JObj [(''4.pbs02'', ?j4)])]) ''Jobs'' =
              Inr (JObj [(''4.pbs02'', ?j4)])"
    by simp
  have g5: "getitem (JObj [(''Jobs'', JObj [(''5.pbs02'', ?j5)])]) ''Jobs'' =
              Inr (JObj [(''5.pbs02'', ?j5)])"
    by simp
  have e4: "snd (filter_json (JObj [(''Jobs'', JObj [(''4.pbs02'', ?j4)])]) ''alice'' '''' '''' '''') =
              Inl (SystemExit (JObj [(''Job_Name'', JStr ''7''), (''Job_Owner'', JNull)]))"
    by code_simp
  have h5: "has_field ?j5 ''Job_Name'' \<and> \<not> has_field ?j5 ''Job_Owner''"
    by code_simp
  from filter_json_missing_field[OF example_jobs, of "''''" "''''" "''''" "''''"
      "JObj []" "[(''1.pbs02'', example_running), (''2.pbs02'', example_queued_named)]" example_widths]
    example_filter_json
  have 1: "list_all (\<lambda>p. complete_record (snd p))
     [(''1.pbs02'', example_running), (''2.pbs02'', example_queued_named)]"
    by blast
  from filter_json_missing_field[OF g4, of "''alice''" "''''" "''''" "''''"
      "JObj [(''Job_Name'', JStr ''7''), (''Job_Owner'', JNull)]" "[]" example_widths] e4
  have 2: "\<exists>p \<in> set [(''4.pbs02'', ?j4)].
      fix_name (snd p) = Inr (JObj [(''Job_Name'', JStr ''7''), (''Job_Owner'', JNull)])"
    by blast
  from filter_json_missing_field[OF g5, of "''alice''" "''''" "''''" "''''"
      "JObj []" "[]" example_widths] h5
  have 3: "snd (filter_json (JObj [(''Jobs'', JObj [(''5.pbs02'', ?j5)])])
         ''alice'' '''' '''' '''') = Inl (KeyError (JStr ''Job_Owner''))"
    by blast
  from example_jobs example_filter_json 1 e4 2 h5 3 show ?thesis by blast
qed

subsection \<open>Rendering twice\<close>

lemma length_center [simp]: "length (center w s) = max w (length s)"
  by (simp add: center_def Let_def)

lemma format_center_text:
  "format_center w x =
     bnd (case x of JStr s \<Rightarrow> Inr s | JInt i \<Rightarrow> Inr (str_int i) | _ \<Rightarrow> Inl TypeError)
       (\<lambda>s. Inr (center w s))"
  by (cases x) (simp_all add: format_center_def)

lemma length_header:
  "length (header sp) =
     16 + max (sp_jobid sp) (length ''JobID'') + max (sp_name sp) (length ''JobName'') +
     max (sp_mem sp) (length ''Mem'') + max (sp_ncpus sp) (length ''CPUs'') +
     max (sp_user sp) (length ''User'') + max (sp_queue sp) (length ''Queue'') +
     max (sp_state sp) (length ''State'') + max (sp_walltime sp) (length ''Walltime'') +
     max (sp_cpu_efficiency sp) (length ''%CPU'') + max (sp_mem_efficiency sp) (length ''%MEM'')"
  by (simp add: header_def esc_def)

lemma length_header_pad:
  "labels_fit sp \<Longrightarrow> length (header (pad_spacing sp)) = length (header sp) + 10"
  by (simp add: length_header labels_fit_def pad_spacing_def)

lemma spacing_le_pad [simp]: "spacing_le sp (pad_spacing sp)"
  by (simp add: spacing_le_def pad_spacing_def)

lemma labels_fit_pad: "labels_fit sp \<Longrightarrow> labels_fit (pad_spacing sp)"
  by (rule labels_fit_mono[OF _ spacing_le_pad])

lemma first_part_text:
  "(case parts of [] \<Rightarrow> Inl IndexError | p # ps \<Rightarrow> Inr (center w p)) =
     bnd (case parts of [] \<Rightarrow> Inl IndexError | p # ps \<Rightarrow> Inr p) (\<lambda>p. Inr (center w p))"
  by (cases parts) simp_all

lemma table_row_mono:
  assumes "table_row sp key v = Inr r" and "spacing_le sp sp'"
  shows "\<exists>r'. table_row sp' key v = Inr r' \<and> length r \<le> length r'"
  using assms unfolding table_row_def format_center_text first_part_text
  by (auto simp: bnd_eq_Inr_iff spacing_le_def intro!: add_mono max.mono)

lemma table_rows_mono:
  assumes "table_rows sp k jobs acc = Inr out" and "spacing_le sp sp'"
  shows "\<exists>out'. table_rows sp' k jobs acc' = Inr out' \<and>
               length out + length acc' \<le> length out' + length acc"
  using assms(1)
proof (induction jobs arbitrary: k acc acc')
  case Nil
  then show ?case by simp
next
  case (Cons p ps)
  obtain key v where p: "p = (key, v)" by (cases p)
  let ?c = "if k mod 2 = 0 then esc ''[1;37;48m'' else esc ''[0;37;48m''"
  from Cons.prems p obtain r where r: "table_row sp key v = Inr r"
    and t: "table_rows sp (k + 1) ps (acc @ ?c @ r) = Inr out"
    by (auto simp: bnd_eq_Inr_iff)
  from table_row_mono[OF r assms(2)] obtain r' where
    r': "table_row sp' key v = Inr r'" "length r \<le> length r'" by blast
  from Cons.IH[OF t, of "acc' @ ?c @ r'"] obtain out' where
    "table_rows sp' (k + 1) ps (acc' @ ?c @ r') = Inr out'"
    "length out + length (acc' @ ?c @ r') \<le> length out' + length (acc @ ?c @ r)"
    by blast
  with r' show ?case by (auto simp: p)
qed

text \<open>
  Claim C7, as stated, fails. Lines 171 and 172 add one to every width in the table
  that was passed in, on every call: a second call on the same filtered set and the
  same table works with widths that are one larger, and its output differs.
\<close>

theorem generate_table_twice_counterexample:
  "snd (generate_table [(''2.pbs02'', example_queued_named)]
         (fst (generate_table [(''2.pbs02'', example_queued_named)] example_widths))) \<noteq>
   snd (generate_table [(''2.pbs02'', example_queued_named)] example_widths)"
  by code_simp

text \<open>
  Claim C7, amended. The text that \<^verbatim>\<open>generate_table\<close> returns is determined by the
  filtered set and the widths found in the table at the call, and every call leaves
  every width of the table one larger than it found it (the padding is applied by each
  call, not once). So a second call on the same table is a call with widths one
  larger; on a table in which the header labels fit, as \<^verbatim>\<open>filter_json\<close> returns it,
  a second call that follows a call that returned returns too, and a longer text.
\<close>

theorem generate_table_twice:
  "fst (generate_table json_data spacing) = pad_spacing spacing \<and>
   snd (generate_table json_data spacing) =
     table_rows (pad_spacing spacing) 0 json_data (header (pad_spacing spacing)) \<and>
   generate_table json_data (fst (generate_table json_data spacing)) =
     generate_table json_data (pad_spacing spacing) \<and>
   (labels_fit spacing \<and> snd (generate_table json_data spacing) = Inr out1 \<longrightarrow>
      (\<exists>out2. snd (generate_table json_data (fst (generate_table json_data spacing))) = Inr out2 \<and>
              length out1 < length out2))"
proof -
  let ?s1 = "pad_spacing spacing"
  let ?s2 = "pad_spacing (pad_spacing spacing)"
  have "\<exists>out2. table_rows ?s2 0 json_data (header ?s2) = Inr out2 \<and> length out1 < length out2"
    if fit: "labels_fit spacing" and ret: "table_rows ?s1 0 json_data (header ?s1) = Inr out1"
  proof -
    from table_rows_mono[OF ret spacing_le_pad, of "header ?s2"] obtain out2 where
      o: "table_rows ?s2 0 json_data (header ?s2) = Inr out2"
        "length out1 + length (header ?s2) \<le> length out2 + length (header ?s1)"
      by blast
    from fit have "length (header ?s2) = length (header ?s1) + 10"
      by (intro length_header_pad labels_fit_pad)
    with o show ?thesis by auto
  qed
  then show ?thesis by (auto simp: generate_table_def Let_def)
qed

theorem generate_table_twice_witness:
  "labels_fit example_widths \<and>
   \<not> isl (snd (generate_table [(''2.pbs02'', example_queued_named)] example_widths)) \<and>
   (\<exists>out1 out2.
      snd (generate_table [(''2.pbs02'', example_queued_named)] example_widths) = Inr out1 \<and>
      snd (generate_table [(''2.pbs02'', example_queued_named)]
             (fst (generate_table [(''2.pbs02'', example_queued_named)] example_widths))) = Inr out2 \<and>
      length out1 < length out2)"
proof -
  have l: "labels_fit example_widths" by code_simp
  have r: "\<not> isl (snd (generate_table [(''2.pbs02'', example_queued_named)] example_widths))"
    by code_simp
  then obtain out1 where
    o: "snd (generate_table [(''2.pbs02'', example_queued_named)] example_widths) = Inr out1"
    by (cases "snd (generate_table [(''2.pbs02'', example_queued_named)] example_widths)") simp_all
  from generate_table_twice[of "[(''2.pbs02'', example_queued_named)]" example_widths out1] l r o
  show ?thesis by blast
qed

subsection \<open>The summary reads the global variable\<close>

text \<open>
  Claim C8. \<^verbatim>\<open>summarize_json\<close> should count over the mapping that it is given. Only
  the total does: the loop of line 57 iterates over the global \<^verbatim>\<open>json_data\<close>, so the
  counts per queue and per state are those of whatever that name is bound to, and the
  call raises \<^verbatim>\<open>NameError\<close> when it is not bound. With the global holding one running
  job, the summary of the empty mapping reports no job in total, one job in queue
  \<^verbatim>\<open>batch\<close> and one job in state \<^verbatim>\<open>R\<close>.
\<close>

theorem summarize_json_reads_global:
  "summarize_counts (Some items) filtered_json =
     bnd (summarize_loop items ([], [(JStr ''R'', 0), (JStr ''Q'', 0), (JStr ''Other'', 0)]))
       (\<lambda>(qc, sc). Inr (int (length filtered_json), qc, sc)) \<and>
   summarize_json None filtered_json = Inl NameError \<and>
   summarize_json (Some [(''1.pbs02'', example_running)]) [] =
     Inr ''NumberOfJobs:0  JobsPerQueue:{'batch': 1}  JobStates:{'R': 1, 'Q': 0, 'Other': 0}''"
proof -
  have "summarize_json (Some [(''1.pbs02'', example_running)]) [] =
     Inr ''NumberOfJobs:0  JobsPerQueue:{'batch': 1}  JobStates:{'R': 1, 'Q': 0, 'Other': 0}''"
    by code_simp
  then show ?thesis
    by (simp add: summarize_counts_def summarize_json_def Let_def)
qed

end
